theory Spec2Isabelle
  imports Main "HOL-Library.Char_ord" "HOL-Library.List_Lexorder"
begin

section \<open>JavaScript values, strings and containers\<close>

text \<open>
  The scripts handle strings, numbers, booleans, \<open>null\<close> and \<open>undefined\<close>.

  A string is a \<open>char list\<close>; a \<open>char\<close> stands for the code unit of the same number, so
  the strings of the model are those over U+0000 to U+00FF. Strings with higher code
  units are not represented.

  The scripts do no arithmetic on the numbers they pass around as values: they convert
  them to strings and test them for truth. A number is therefore kept as the text
  \<open>String\<close> gives for it, which determines the number but for the sign of zero:
  \<open>''2''\<close>, \<open>''-7''\<close>, \<open>''2.5''\<close>, \<open>''1e+21''\<close>, \<open>''Infinity''\<close>, \<open>''NaN''\<close>. The falsy
  numbers are the two zeros, which both print as \<open>0\<close>, and \<open>NaN\<close>.
\<close>

type_synonym jsnum = string

datatype jsval = JUndefined | JNull | JBool bool | JNum jsnum | JStr string

fun truthy :: "jsval \<Rightarrow> bool" where
  "truthy JUndefined = False"
| "truthy JNull = False"
| "truthy (JBool b) = b"
| "truthy (JNum n) = (n \<noteq> ''0'' \<and> n \<noteq> ''NaN'')"
| "truthy (JStr s) = (s \<noteq> [])"

text \<open>\<open>a || b\<close>: the left operand when it is truthy, else the right one.\<close>

definition js_or :: "jsval \<Rightarrow> jsval \<Rightarrow> jsval" where
  "js_or a b = (if truthy a then a else b)"

text \<open>Decimal digits of a natural number, most significant first.\<close>

fun show_nat :: "nat \<Rightarrow> string" where
  "show_nat n =
     (if n < 10 then [''0123456789'' ! n]
      else show_nat (n div 10) @ [''0123456789'' ! (n mod 10)])"

declare show_nat.simps [simp del]

definition show_int :: "int \<Rightarrow> string" where
  "show_int i = (if i < 0 then CHR ''-'' # show_nat (nat (- i)) else show_nat (nat i))"

text \<open>
  \<open>String(v)\<close>, also what a template literal and \<open>URLSearchParams.set\<close> apply. A whole
  number below \<open>2^53\<close> in size prints as its decimal digits, \<open>show_int\<close>.
\<close>

fun js_String :: "jsval \<Rightarrow> string" where
  "js_String JUndefined = ''undefined''"
| "js_String JNull = ''null''"
| "js_String (JBool b) = (if b then ''true'' else ''false'')"
| "js_String (JNum n) = n"
| "js_String (JStr s) = s"

text \<open>
  \<open>String.prototype.trim\<close> strips white space and line terminators from both ends, and
  \<open>parseInt\<close> skips them at the start. Up to U+00FF these are tab, line feed, vertical
  tab, form feed, carriage return, space and the no-break space U+00A0; the others
  (U+1680, U+2000 to U+200A, U+2028, U+2029, U+202F, U+205F, U+3000 and U+FEFF) lie
  above the code units a \<open>char\<close> stands for.
\<close>

definition is_ws :: "char \<Rightarrow> bool" where
  "is_ws c =
     (c \<in> set [CHR 0x09, CHR 0x0A, CHR 0x0B, CHR 0x0C, CHR 0x0D, CHR 0x20, CHR 0xA0])"

definition js_trim :: "string \<Rightarrow> string" where
  "js_trim s = rev (dropWhile is_ws (rev (dropWhile is_ws s)))"

definition is_digit :: "char \<Rightarrow> bool" where
  "is_digit c = (c \<in> set ''0123456789'')"

definition digit_val :: "char \<Rightarrow> nat" where
  "digit_val c = of_char c - 48"

definition nat_of_digits :: "string \<Rightarrow> nat" where
  "nat_of_digits ds = foldl (\<lambda>n c. 10 * n + digit_val c) 0 ds"

text \<open>
  \<open>parseInt(s, 10)\<close>: leading white space is skipped, a sign is read, then the longest
  prefix of digits; without a digit the result is \<open>NaN\<close>, here \<open>None\<close>. The value is
  kept exact (a double rounds above \<open>2^53\<close>, which no comparison made by the scripts
  can see).
\<close>

definition parseInt :: "string \<Rightarrow> int option" where
  "parseInt s =
     (let t = dropWhile is_ws s;
          neg = (t \<noteq> [] \<and> hd t = CHR ''-'');
          u = (if t \<noteq> [] \<and> (hd t = CHR ''-'' \<or> hd t = CHR ''+'') then tl t else t);
          ds = takeWhile is_digit u
      in if ds = [] then None
         else Some (if neg then - int (nat_of_digits ds) else int (nat_of_digits ds)))"

subsection \<open>URLSearchParams\<close>

text \<open>
  A query string is handled through \<open>URLSearchParams\<close>: an ordered list of name/value
  pairs. \<open>toString\<close> followed by parsing gives the same pairs back, so the address bar's
  query is kept as the list itself; the empty list is the empty string.
\<close>

type_synonym search_params = "(string \<times> string) list"

definition usp_has :: "search_params \<Rightarrow> string \<Rightarrow> bool" where
  "usp_has ps k = (k \<in> set (map fst ps))"

definition usp_get :: "search_params \<Rightarrow> string \<Rightarrow> string option" where
  "usp_get ps k = map_of ps k"

text \<open>
  \<open>set(k, v)\<close> overwrites the first pair named \<open>k\<close> and drops the other pairs of that
  name; without such a pair it appends.
\<close>

fun usp_set :: "search_params \<Rightarrow> string \<Rightarrow> string \<Rightarrow> search_params" where
  "usp_set [] k v = [(k, v)]"
| "usp_set ((k', v') # ps) k v =
     (if k' = k then (k, v) # filter (\<lambda>p. fst p \<noteq> k) ps
      else (k', v') # usp_set ps k v)"

subsection \<open>Plain objects\<close>

text \<open>
  An object is the list of its own properties in creation order. Assigning an existing
  key keeps its place. Enumeration (\<open>Object.entries\<close>, \<open>Object.keys\<close>, spread) visits
  the array-index keys first, in ascending numeric order, then the other keys in
  creation order.
\<close>

type_synonym 'v obj = "(string \<times> 'v) list"

fun obj_put :: "string \<Rightarrow> 'v \<Rightarrow> 'v obj \<Rightarrow> 'v obj" where
  "obj_put k v [] = [(k, v)]"
| "obj_put k v ((k', v') # ps) =
     (if k' = k then (k, v) # ps else (k', v') # obj_put k v ps)"

text \<open>
  \<open>ob[k] = v\<close> on an object made by \<open>{}\<close>, for a value that is no object: the key
  \<open>__proto__\<close> names the accessor of the prototype, and assigning to it makes no
  property. An object literal and a spread define their properties and have no such
  exception.
\<close>

definition obj_set :: "string \<Rightarrow> 'v \<Rightarrow> 'v obj \<Rightarrow> 'v obj" where
  "obj_set k v ob = (if k = ''__proto__'' then ob else obj_put k v ob)"

definition obj_get :: "'v obj \<Rightarrow> string \<Rightarrow> 'v option" where
  "obj_get ob k = map_of ob k"

definition obj_delete :: "string \<Rightarrow> 'v obj \<Rightarrow> 'v obj" where
  "obj_delete k ob = filter (\<lambda>p. fst p \<noteq> k) ob"

definition is_array_index :: "string \<Rightarrow> bool" where
  "is_array_index k =
     (k \<noteq> [] \<and> list_all is_digit k \<and> (k = ''0'' \<or> hd k \<noteq> CHR ''0'')
      \<and> nat_of_digits k < 4294967295)"

definition Object_entries :: "'v obj \<Rightarrow> (string \<times> 'v) list" where
  "Object_entries ob =
     sort_key (\<lambda>p. nat_of_digits (fst p)) (filter (\<lambda>p. is_array_index (fst p)) ob)
     @ filter (\<lambda>p. \<not> is_array_index (fst p)) ob"

text \<open>\<open>{...target, ...src}\<close>: the properties of \<open>src\<close> are assigned in enumeration order.\<close>

definition obj_assign :: "'v obj \<Rightarrow> 'v obj \<Rightarrow> 'v obj" where
  "obj_assign target src = foldl (\<lambda>ob p. obj_put (fst p) (snd p) ob) target (Object_entries src)"

section \<open>Pagination controls\<close>

text \<open>
  Both list pages draw a pagination bar from the current page and the number of pages.
  A bar is a sequence of list items: links that carry a page number, and ellipsis
  placeholders that carry none. Page numbers are the integral JavaScript numbers the
  server's envelope holds, modelled as \<open>int\<close>.
\<close>

datatype icon = SkipStart | ArrowLeftCircle | ArrowRightCircle | SkipEnd

subsection \<open>Verification list\<close>

text \<open>
  \<open>makePageItem(page, label, active, disabled)\<close> builds the markup of one link: the
  \<open>data-page\<close> attribute, the text (\<open>label || page\<close>, so a missing label shows the
  number) and the classes \<open>active\<close> and \<open>disabled\<close>. The ellipsis is a \<open>span\<close> without
  \<open>data-page\<close>.
\<close>

datatype page_item =
    PageItem (data_page: int) (label: "icon option") (active: bool) (disabled: bool)
  | EllipsisItem

definition makePageItem :: "int \<Rightarrow> icon option \<Rightarrow> bool \<Rightarrow> bool \<Rightarrow> page_item" where
  "makePageItem page lbl act dis = PageItem page lbl act dis"

text \<open>The body of the \<open>for (let p = 1; p <= totalPages; p++)\<close> loop, with \<open>win = 2\<close>.\<close>

definition win :: int where
  "win = 2"

definition page_loop_body :: "int \<Rightarrow> int \<Rightarrow> int \<Rightarrow> page_item list" where
  "page_loop_body currentPage totalPages p =
     (if p = 1 \<or> p = totalPages \<or> (p \<ge> currentPage - win \<and> p \<le> currentPage + win)
      then [makePageItem p None (p = currentPage) False]
      else if p = currentPage - (win + 1) \<or> p = currentPage + (win + 1)
      then [EllipsisItem]
      else [])"

text \<open>
  The items written into \<open>#pagination-block\<close>. With \<open>!totalPages || totalPages <= 1\<close>
  the block is emptied and nothing else happens.
\<close>

definition pagination_items :: "int \<Rightarrow> int \<Rightarrow> page_item list" where
  "pagination_items currentPage totalPages =
     (if totalPages = 0 \<or> totalPages \<le> 1 then []
      else
        [makePageItem 1 (Some SkipStart) False (currentPage = 1),
         makePageItem (max 1 (currentPage - 1)) (Some ArrowLeftCircle) False (currentPage = 1)]
        @ concat (map (page_loop_body currentPage totalPages) [1..totalPages])
        @ [makePageItem (min totalPages (currentPage + 1)) (Some ArrowRightCircle) False
             (currentPage = totalPages),
           makePageItem totalPages (Some SkipEnd) False (currentPage = totalPages)])"

fun is_numbered :: "page_item \<Rightarrow> bool" where
  "is_numbered (PageItem _ lbl _ _) = (lbl = None)"
| "is_numbered EllipsisItem = False"

subsection \<open>Appeals list\<close>

text \<open>
  \<open>makeLi(inner, page, disabled, active)\<close> builds a list item whose link remembers
  \<open>page\<close> and \<open>disabled\<close> in the closure of its click handler. The inner markup is an
  icon or the page number.
\<close>

datatype li_inner = InnerIcon icon | InnerPage int

datatype appeals_li =
    Li (inner: li_inner) (li_page: int) (li_disabled: bool) (li_active: bool)
  | EllipsisLi

definition makeLi :: "li_inner \<Rightarrow> int \<Rightarrow> bool \<Rightarrow> bool \<Rightarrow> appeals_li" where
  "makeLi inn page dis act = Li inn page dis act"

definition appeals_loop_body :: "int \<Rightarrow> int \<Rightarrow> int \<Rightarrow> appeals_li list" where
  "appeals_loop_body currentPage total_pages p =
     (if p = 1 \<or> p = total_pages \<or> \<bar>p - currentPage\<bar> \<le> 2
      then [makeLi (InnerPage p) p False (p = currentPage)]
      else if \<bar>p - currentPage\<bar> = 3
      then [EllipsisLi]
      else [])"

text \<open>
  The appeals renderer reads the module variable \<open>currentPage\<close> and has no early return:
  the four boundary links are appended whatever \<open>total_pages\<close> is.
\<close>

definition appeals_pagination_items :: "int \<Rightarrow> int \<Rightarrow> appeals_li list" where
  "appeals_pagination_items currentPage total_pages =
     [makeLi (InnerIcon SkipStart) 1 (currentPage \<le> 1) False,
      makeLi (InnerIcon ArrowLeftCircle) (currentPage - 1) (currentPage \<le> 1) False]
     @ concat (map (appeals_loop_body currentPage total_pages) [1..total_pages])
     @ [makeLi (InnerIcon ArrowRightCircle) (currentPage + 1) (currentPage \<ge> total_pages) False,
        makeLi (InnerIcon SkipEnd) total_pages (currentPage \<ge> total_pages) False]"

fun is_li_link :: "appeals_li \<Rightarrow> bool" where
  "is_li_link (Li _ _ _ _) = True"
| "is_li_link EllipsisLi = False"

section \<open>Verification list page\<close>

text \<open>
  What the page's script reads and writes: the address bar (path and query), the
  page-global \<open>window.company_id\<close>, the filter form (its \<open>FormData\<close> entries; the form
  has text and select controls only), the value of the \<open>#limit\<close> control, the table body
  \<open>#verification-table-body\<close>, the block \<open>#pagination-block\<close>, and the text of the three
  counters. An element that may be missing is an \<open>option\<close>. Calls that leave the script
  (history, network, dialogs, notifications) are appended to \<open>effects\<close> in the order they
  are made.
\<close>

datatype action = LoadEntries | DeleteEntry

datatype notice = HttpError action nat string | NetworkError action

datatype dialog = BadServerReply | ServerError string | EntryDeleted

text \<open>
  A request URL is a path with a query: either the \<open>toString\<close> of a \<open>URLSearchParams\<close>, or
  a template literal that pastes the values between \<open>=\<close> and \<open>&\<close> as they are.
\<close>

datatype query = Encoded search_params | Pasted "(string \<times> string) list"

datatype effect =
    ReplaceState string search_params
  | Fetch string string query
  | ConsoleError
  | ShowAlert notice
  | Alert dialog
  | Confirm string

text \<open>
  A rendered row keeps what the script reads back from it: the \<open>data-verification-id\<close>
  and \<open>data-company-id\<close> of its delete button and whether the result badge says the
  meter passed. The other cells are text only.
\<close>

datatype row =
    PlaceholderRow nat
  | EntryRow (row_id: string) (row_company_id: string) (result_ok: bool)

text \<open>
  The columns a row covers: the \<open>colspan\<close> of the single cell of a placeholder row, and
  the 22 cells the template of an entry's row has.
\<close>

fun row_columns :: "row \<Rightarrow> nat" where
  "row_columns (PlaceholderRow span) = span"
| "row_columns (EntryRow _ _ _) = 22"

fun is_placeholder :: "row \<Rightarrow> bool" where
  "is_placeholder (PlaceholderRow _) = True"
| "is_placeholder (EntryRow _ _ _) = False"

text \<open>
  What \<open>#pagination-block\<close> holds: the items of a bar; or, when the bar was drawn around
  a current page that is no whole number, markup that hangs on floating-point arithmetic
  and is not described further.
\<close>

datatype block = Items "page_item list" | OtherMarkup

record entry =
  entry_id :: int
  entry_company_id :: jsval
  verification_result :: jsval

record vpage =
  location_pathname :: string
  location_search :: search_params
  window_company_id :: jsval
  filter_form :: "(string \<times> string) list"
  limit_value :: "string option"
  table_body :: "row list option"
  pagination_block :: "block option"
  total_entries_text :: "string option"
  verified_entry_text :: "string option"
  not_verified_entry_text :: "string option"
  effects :: "effect list"

definition emit :: "effect list \<Rightarrow> vpage \<Rightarrow> vpage" where
  "emit es st = st\<lparr>effects := effects st @ es\<rparr>"

subsection \<open>Query codec and filter readers\<close>

definition getCompanyId :: "vpage \<Rightarrow> jsval" where
  "getCompanyId st =
     (case usp_get (location_search st) ''company_id'' of
        Some v \<Rightarrow> JStr v
      | None \<Rightarrow> js_or (window_company_id st) (JStr []))"

definition getCurrentFiltersFromForm :: "vpage \<Rightarrow> jsval obj" where
  "getCurrentFiltersFromForm st =
     foldl (\<lambda>ob p. if snd p \<noteq> [] then obj_set (fst p) (JStr (snd p)) ob else ob)
       [] (filter_form st)"

definition knownKeys :: "string list" where
  "knownKeys =
     [''date_from'', ''date_to'', ''client_address'', ''factory_number'',
      ''series_id'', ''employee_id'', ''client_phone'', ''city_id'',
      ''water_type'', ''act_number'', ''limit'', ''page'']"

definition getCurrentFiltersFromURL :: "vpage \<Rightarrow> jsval obj" where
  "getCurrentFiltersFromURL st =
     foldl (\<lambda>out k.
              case usp_get (location_search st) k of
                Some v \<Rightarrow> if v \<noteq> [] then obj_set k (JStr v) out else out
              | None \<Rightarrow> out)
       [] knownKeys"

definition keeps :: "jsval \<Rightarrow> bool" where
  "keeps v = (v \<noteq> JUndefined \<and> v \<noteq> JNull \<and> js_trim (js_String v) \<noteq> [])"

definition buildQuery :: "vpage \<Rightarrow> jsval obj \<Rightarrow> search_params" where
  "buildQuery st paramsObj =
     (let companyId = getCompanyId st;
          params = (if truthy companyId then usp_set [] ''company_id'' (js_String companyId)
                    else [])
      in foldl (\<lambda>ps p. if keeps (snd p) then usp_set ps (fst p) (js_String (snd p)) else ps)
           params (Object_entries paramsObj))"

definition pushURLState :: "vpage \<Rightarrow> jsval obj \<Rightarrow> vpage" where
  "pushURLState st paramsObj =
     (let base = location_pathname st;
          q = buildQuery st paramsObj
      in emit [ReplaceState base q] (st\<lparr>location_search := q\<rparr>))"

subsection \<open>Requests\<close>

text \<open>
  How a request ends is an input: the network fails, or a response arrives with a status,
  a status text and a body. \<open>res.ok\<close> holds for the statuses 200 to 299. Reading the
  text of a response that is not ok is taken to succeed.
\<close>

datatype 'b fetch_outcome = NetworkFailure | Responded nat string 'b

definition res_ok :: "nat \<Rightarrow> bool" where
  "res_ok status = (200 \<le> status \<and> status \<le> 299)"

definition safeFetch ::
  "vpage \<Rightarrow> string \<Rightarrow> string \<Rightarrow> query \<Rightarrow> action \<Rightarrow> 'b fetch_outcome \<Rightarrow> vpage \<times> 'b option" where
  "safeFetch st method path q act outcome =
     (let st1 = emit [Fetch method path q] st
      in case outcome of
           NetworkFailure \<Rightarrow> (emit [ConsoleError, ShowAlert (NetworkError act)] st1, None)
         | Responded status statusText b \<Rightarrow>
             if \<not> res_ok status
             then (emit [ConsoleError, ShowAlert (HttpError act status statusText)] st1, None)
             else (st1, Some b))"

subsection \<open>Rendering\<close>

definition renderStats :: "vpage \<Rightarrow> int \<Rightarrow> int \<Rightarrow> int \<Rightarrow> vpage" where
  "renderStats st total_entries verified not_verified =
     st\<lparr>total_entries_text := map_option (\<lambda>_. show_int total_entries) (total_entries_text st),
        verified_entry_text := map_option (\<lambda>_. show_int verified) (verified_entry_text st),
        not_verified_entry_text :=
          map_option (\<lambda>_. show_int not_verified) (not_verified_entry_text st)\<rparr>"

definition render_row :: "vpage \<Rightarrow> entry \<Rightarrow> row" where
  "render_row st e =
     EntryRow (show_int (entry_id e))
       (js_String (js_or (js_or (getCompanyId st) (entry_company_id e)) (JStr [])))
       (truthy (verification_result e))"

definition renderVerificationTable :: "vpage \<Rightarrow> entry list \<Rightarrow> vpage" where
  "renderVerificationTable st items =
     (case table_body st of
        None \<Rightarrow> st
      | Some _ \<Rightarrow>
          if items = [] then st\<lparr>table_body := Some [PlaceholderRow 20]\<rparr>
          else st\<lparr>table_body := Some (map (render_row st) items)\<rparr>)"

definition renderPagination :: "vpage \<Rightarrow> int \<Rightarrow> int \<Rightarrow> vpage" where
  "renderPagination st currentPage totalPages =
     (case pagination_block st of
        None \<Rightarrow> st
      | Some _ \<Rightarrow>
          st\<lparr>pagination_block := Some (Items (pagination_items currentPage totalPages))\<rparr>)"

text \<open>
  The whole number a number is, when it is one and the sums and differences the bar
  computes from it (up to 3 away) stay below \<open>2^53\<close> in size, where doubles hold every
  whole number: its text is then the decimal numeral of that number.
\<close>

definition to_whole :: "jsnum \<Rightarrow> int option" where
  "to_whole n =
     (case parseInt n of
        None \<Rightarrow> None
      | Some i \<Rightarrow> if show_int i = n \<and> \<bar>i\<bar> + 3 < 9007199254740992 then Some i else None)"

text \<open>
  \<open>renderPagination(curPage, total_pages)\<close> as \<open>loadVerificationEntries\<close> calls it: the
  current page is the \<open>page\<close> of the envelope, a whole number (\<open>Inr\<close>), or else the page
  argument, which may be any number (\<open>Inl\<close>). The test
  \<open>!totalPages || totalPages <= 1\<close> comes first and does not read the current page.
\<close>

definition renderPagination_any :: "vpage \<Rightarrow> jsnum + int \<Rightarrow> int \<Rightarrow> vpage" where
  "renderPagination_any st cur totalPages =
     (case (case cur of Inr c \<Rightarrow> Some c | Inl n \<Rightarrow> to_whole n) of
        Some c \<Rightarrow> renderPagination st c totalPages
      | None \<Rightarrow>
          (case pagination_block st of
             None \<Rightarrow> st
           | Some _ \<Rightarrow>
               st\<lparr>pagination_block :=
                    Some (if totalPages = 0 \<or> totalPages \<le> 1 then Items [] else OtherMarkup)\<rparr>))"

subsection \<open>List fetcher\<close>

text \<open>
  The envelope's fields may be missing (the destructuring defaults apply); a body that
  is not JSON makes \<open>res.json()\<close> fail, and a falsy JSON value stands for \<open>{}\<close>.
\<close>

record envelope =
  env_items :: "entry list option"
  env_page :: "int option"
  env_total_pages :: "int option"
  env_total_entries :: "int option"
  env_verified_entry :: "int option"
  env_not_verified_entry :: "int option"

datatype list_body = MalformedJson | FalsyJson | Envelope envelope

definition empty_envelope :: envelope where
  "empty_envelope =
     \<lparr>env_items = None, env_page = None, env_total_pages = None,
      env_total_entries = None, env_verified_entry = None, env_not_verified_entry = None\<rparr>"

definition or_default :: "'a option \<Rightarrow> 'a \<Rightarrow> 'a" where
  "or_default v d = (case v of None \<Rightarrow> d | Some x \<Rightarrow> x)"

definition is_empty_value :: "jsval \<Rightarrow> bool" where
  "is_empty_value v = (v = JStr [] \<or> v = JNull \<or> v = JUndefined)"

text \<open>
  The merged request of \<open>loadVerificationEntries(page)\<close>. The argument is a number: the
  callers pass 1, the \<open>data-page\<close> of a link, or at start-up \<open>Number\<close> of the page the
  address names, which can be any number, \<open>NaN\<close> included. The filter form is present on
  the page.
\<close>

definition resolved_limit :: "vpage \<Rightarrow> jsval obj \<Rightarrow> jsval" where
  "resolved_limit st urlFilters =
     js_or (js_or (case limit_value st of None \<Rightarrow> JNull | Some v \<Rightarrow> JStr v)
                  (or_default (obj_get urlFilters ''limit'') JUndefined))
           (JStr ''30'')"

definition page_request :: "vpage \<Rightarrow> jsnum \<Rightarrow> jsval obj" where
  "page_request st page =
     (let formFilters = getCurrentFiltersFromForm st;
          urlFilters = getCurrentFiltersFromURL st;
          limit = resolved_limit st urlFilters;
          paramsObj = obj_put ''limit'' limit
                        (obj_put ''page'' (JNum page)
                           (obj_assign (obj_assign [] urlFilters) formFilters))
      in filter (\<lambda>p. \<not> is_empty_value (snd p)) paramsObj)"

text \<open>The part of \<open>loadVerificationEntries\<close> that runs before \<open>fetch\<close> is called.\<close>

definition load_prepare :: "vpage \<Rightarrow> jsnum \<Rightarrow> vpage \<times> search_params" where
  "load_prepare st page =
     (let paramsObj = page_request st page;
          st1 = pushURLState st paramsObj
      in (st1, buildQuery st1 paramsObj))"

text \<open>
  The part that runs on the parsed body. The current page of the bar is the envelope's
  \<open>page\<close>, or the argument when the envelope has none.
\<close>

definition load_render :: "vpage \<Rightarrow> jsnum \<Rightarrow> list_body \<Rightarrow> vpage" where
  "load_render st page body =
     (case body of
        MalformedJson \<Rightarrow> emit [ConsoleError, Alert BadServerReply] st
      | _ \<Rightarrow>
          (let env = (case body of Envelope e \<Rightarrow> e | _ \<Rightarrow> empty_envelope);
               st1 = renderStats st (or_default (env_total_entries env) 0)
                       (or_default (env_verified_entry env) 0)
                       (or_default (env_not_verified_entry env) 0);
               st2 = renderVerificationTable st1 (or_default (env_items env) [])
           in renderPagination_any st2
                (case env_page env of Some c \<Rightarrow> Inr c | None \<Rightarrow> Inl page)
                (or_default (env_total_pages env) 1)))"

definition loadVerificationEntries :: "vpage \<Rightarrow> jsnum \<Rightarrow> list_body fetch_outcome \<Rightarrow> vpage" where
  "loadVerificationEntries st page outcome =
     (let (st1, q) = load_prepare st page;
          (st2, res) = safeFetch st1 ''GET'' ''/verification/api/verifications-control/''
                         (Encoded q) LoadEntries outcome
      in case res of None \<Rightarrow> st2 | Some body \<Rightarrow> load_render st2 page body)"

text \<open>
  The click handler bound to every \<open>a[data-page]\<close> of the block: it reads the attribute
  back as a number, which is the page the link was made for, and loads that page. The
  ellipsis has no such attribute and no handler.
\<close>

definition page_link_click :: "vpage \<Rightarrow> page_item \<Rightarrow> list_body fetch_outcome \<Rightarrow> vpage" where
  "page_link_click st item outcome =
     (case item of
        PageItem page _ _ _ \<Rightarrow> loadVerificationEntries st (show_int page) outcome
      | EllipsisItem \<Rightarrow> st)"

subsection \<open>Deleting an entry\<close>

text \<open>
  \<open>res.json()\<close> of the delete response may fail, which leaves \<open>data = {}\<close>; otherwise the
  body may carry an \<open>error\<close> string.
\<close>

datatype delete_body = NoJson | DeleteJson "string option"

definition reported_error :: "delete_body \<Rightarrow> string option" where
  "reported_error b =
     (case b of
        NoJson \<Rightarrow> None
      | DeleteJson e \<Rightarrow> (case e of None \<Rightarrow> None | Some m \<Rightarrow> if m = [] then None else Some m))"

text \<open>
  A counter is decremented through its text: \<open>parseInt(el.textContent || '0', 10)\<close>,
  and only a value above 0 is written back, one less.
\<close>

definition dec_counter :: "string option \<Rightarrow> string option" where
  "dec_counter el =
     (case el of
        None \<Rightarrow> None
      | Some txt \<Rightarrow>
          (case parseInt (if txt = [] then ''0'' else txt) of
             None \<Rightarrow> Some txt
           | Some n \<Rightarrow> if n > 0 then Some (show_int (n - 1)) else Some txt))"

definition row_at :: "vpage \<Rightarrow> nat \<Rightarrow> row option" where
  "row_at st i =
     (case table_body st of
        None \<Rightarrow> None
      | Some rows \<Rightarrow> if i < length rows then Some (rows ! i) else None)"

definition remove_row :: "nat \<Rightarrow> vpage \<Rightarrow> vpage" where
  "remove_row i st =
     st\<lparr>table_body := map_option (\<lambda>rows. take i rows @ drop (Suc i) rows) (table_body st)\<rparr>"

text \<open>
  \<open>onDeleteVerification\<close> for the delete button of the row at position \<open>i\<close>; the answer to
  the confirmation prompt and the end of the request are inputs. The row fades for
  300 ms before it leaves the table; the removal is applied at once here.
\<close>

definition onDeleteVerification ::
  "vpage \<Rightarrow> nat \<Rightarrow> bool \<Rightarrow> delete_body fetch_outcome \<Rightarrow> vpage" where
  "onDeleteVerification st i confirmed outcome =
     (case row_at st i of
        Some (EntryRow verificationId companyId ok) \<Rightarrow>
          if verificationId = [] \<or> companyId = [] then st
          else
            (let st1 = emit [Confirm verificationId] st
             in if \<not> confirmed then st1
                else
                  (let (st2, res) =
                         safeFetch st1 ''DELETE'' ''/verification/api/verifications-control/delete/''
                           (Pasted [(''company_id'', companyId),
                                    (''verification_entry_id'', verificationId)])
                           DeleteEntry outcome
                   in case res of
                        None \<Rightarrow> st2
                      | Some body \<Rightarrow>
                          (case reported_error body of
                             Some m \<Rightarrow> emit [Alert (ServerError m)] st2
                           | None \<Rightarrow>
                               (let st3 = remove_row i (emit [Alert EntryDeleted] st2);
                                    st4 = st3\<lparr>total_entries_text :=
                                                dec_counter (total_entries_text st3)\<rparr>
                                in if ok
                                   then st4\<lparr>verified_entry_text :=
                                              dec_counter (verified_entry_text st4)\<rparr>
                                   else st4\<lparr>not_verified_entry_text :=
                                              dec_counter (not_verified_entry_text st4)\<rparr>))))
      | _ \<Rightarrow> st)"

section \<open>Appeals list page\<close>

text \<open>
  The appeals script keeps the page number in the module variable \<open>currentPage\<close> and reads
  the status filter from its select. \<open>fetchAppeals\<close> and \<open>deleteAppeal\<close> live in another
  module; how their promises end is an input. A fulfilled \<open>fetchAppeals\<close> carries the
  appeals of the page (their ids stand for them) and \<open>total_pages\<close>.
\<close>

datatype 'a promise_outcome = Rejected string | Fulfilled 'a

record appeals_data =
  data_items :: "int list"
  data_total_pages :: int

datatype appeals_row = AppealRow int | ErrorRow nat string

datatype appeals_effect =
    FetchAppeals int int "string option"
  | DeleteAppeal int
  | ModalHide
  | AlertDeleteError string

record apage =
  currentPage :: int
  status_filter_value :: string
  appeals_body :: "appeals_row list"
  pagination_ul :: "appeals_li list"
  spinner_hidden :: bool
  customerField :: bool
  appeals_effects :: "appeals_effect list"

definition pageSize :: int where
  "pageSize = 30"

definition loadAppeals :: "apage \<Rightarrow> appeals_data promise_outcome \<Rightarrow> apage" where
  "loadAppeals st outcome =
     (let st1 = st\<lparr>spinner_hidden := False, appeals_body := []\<rparr>;
          st2 = st1\<lparr>appeals_effects := appeals_effects st1 @
                   [FetchAppeals (currentPage st1) pageSize
                      (if status_filter_value st1 = [] then None
                       else Some (status_filter_value st1))]\<rparr>;
          st3 = (case outcome of
                   Fulfilled d \<Rightarrow>
                     st2\<lparr>appeals_body := appeals_body st2 @ map AppealRow (data_items d),
                         pagination_ul :=
                           appeals_pagination_items (currentPage st2) (data_total_pages d)\<rparr>
                 | Rejected message \<Rightarrow>
                     st2\<lparr>appeals_body := [ErrorRow (if customerField st2 then 7 else 6) message]\<rparr>)
      in st3\<lparr>spinner_hidden := True\<rparr>)"

text \<open>The click handler \<open>makeLi\<close> binds to a link; the ellipsis item has none.\<close>

definition li_click :: "apage \<Rightarrow> appeals_li \<Rightarrow> appeals_data promise_outcome \<Rightarrow> apage" where
  "li_click st li outcome =
     (case li of
        Li _ page dis _ \<Rightarrow>
          if \<not> dis \<and> page \<noteq> currentPage st
          then loadAppeals (st\<lparr>currentPage := page\<rparr>) outcome
          else st
      | EllipsisLi \<Rightarrow> st)"

text \<open>
  The \<open>onclick\<close> that \<open>openDeleteModal(id)\<close> installs on the confirm button.
\<close>

definition confirm_delete_click ::
  "apage \<Rightarrow> int \<Rightarrow> unit promise_outcome \<Rightarrow> appeals_data promise_outcome \<Rightarrow> apage" where
  "confirm_delete_click st appeal_id deleted outcome =
     (let st1 = st\<lparr>appeals_effects := appeals_effects st @ [DeleteAppeal appeal_id]\<rparr>
      in case deleted of
           Fulfilled _ \<Rightarrow>
             loadAppeals (st1\<lparr>appeals_effects := appeals_effects st1 @ [ModalHide]\<rparr>) outcome
         | Rejected message \<Rightarrow>
             st1\<lparr>appeals_effects := appeals_effects st1 @ [AlertDeleteError message]\<rparr>)"

section \<open>Order creation page\<close>

text \<open>
  The act-number lookup and the prefill of the order write the same six form fields from
  two sources: the act found on the server, or \<open>window.prefillData\<close>. A missing or
  \<open>null\<close> field is \<open>None\<close>.
\<close>

record contact =
  client_full_name :: "string option"
  address :: "string option"
  client_phone :: "string option"
  verification_date :: "string option"
  legal_entity :: "string option"
  city_id :: "int option"

record act_data = contact +
  found :: "bool option"
  photos :: "string list option"

datatype act_body = ActMalformed | ActFalsy | ActJson act_data

datatype order_alert =
    ChooseSeries | ActTooLarge | PhoneIncomplete | DateAfterToday | ActNotPositive

record payload =
  entry_data :: "jsval obj"
  deleted_images_id :: "int list"
  new_images :: "string list"

text \<open>
  \<open>UncaughtTypeError\<close> stands for a handler that ends by throwing: the exception leaves
  the handler, and nothing after the throwing statement runs.
\<close>

datatype order_effect =
    OAlert order_alert
  | OConsoleError
  | GetActNumber search_params
  | ReportValidity
  | PostOrder search_params payload
  | UncaughtTypeError

text \<open>
  The page: the series select (the script allows for its absence), the act-number input,
  \<open>lastActQueryKey\<close>, the elements \<open>setIf\<close> looks up by id with their values (an id
  without an element has no entry; \<open>#verification_date\<close> is one of them, and the script
  keeps what \<open>getElementById\<close> returned for it in \<open>verificationDateInput\<close>), the phone
  mask's value, the city select, the photos shown, \<open>window.deletedImages\<close>,
  \<open>window.prefillData\<close>, \<open>window.companyId\<close> and the submit handler's \<open>isSubmitting\<close>.

  An option of the city select is kept with its value and with the whole number
  \<open>Number\<close> makes of that value, if it makes one: this is what \<open>o.value == city_id\<close>
  compares with the city id.
\<close>

type_synonym city_option = "string \<times> int option"

record opage =
  series_value :: "string option"
  act_value :: string
  lastActQueryKey :: "string option"
  elements :: "string \<rightharpoonup> string"
  phone_mask_value :: string
  phone_input_value :: string
  city_select :: "(city_option list \<times> string) option"
  photos_shown :: "string list"
  deletedImages :: "int list"
  prefillData :: "contact option"
  companyId :: jsval
  isSubmitting :: bool
  order_effects :: "order_effect list"

definition oemit :: "order_effect list \<Rightarrow> opage \<Rightarrow> opage" where
  "oemit es st = st\<lparr>order_effects := order_effects st @ es\<rparr>"

definition INT_MAX :: nat where
  "INT_MAX = 2147483647"

definition digits_only :: "string \<Rightarrow> string" where
  "digits_only s = filter is_digit s"

definition strip_zeros :: "string \<Rightarrow> string" where
  "strip_zeros s = dropWhile (\<lambda>c. c = CHR ''0'') s"

text \<open>
  \<open>parseInt\<close> of a digit string is the number it writes, rounded to a double; from
  \<open>2^1024 - 2^970\<close> on the double is \<open>Infinity\<close>, which \<open>Number.isFinite\<close> rejects.
  Below, the rounding keeps the order against \<open>1\<close> and \<open>INT_MAX\<close>, and from
  \<open>INT_MAX\<close> down it is exact.
\<close>

definition js_finite :: "nat \<Rightarrow> bool" where
  "js_finite n = (n < 2 ^ 1024 - 2 ^ 970)"

definition renderActPhotos :: "string list \<Rightarrow> opage \<Rightarrow> opage" where
  "renderActPhotos ps st = st\<lparr>photos_shown := ps\<rparr>"

text \<open>\<open>setIf(id, val)\<close>: the element must exist and the value must not be \<open>null\<close>.\<close>

definition setIf :: "string \<Rightarrow> string option \<Rightarrow> opage \<Rightarrow> opage" where
  "setIf ident val st =
     (case val of
        None \<Rightarrow> st
      | Some v \<Rightarrow>
          (case elements st ident of
             None \<Rightarrow> st
           | Some _ \<Rightarrow> st\<lparr>elements := (elements st)(ident \<mapsto> v)\<rparr>))"

text \<open>
  The city is set when some option converts to the city id. Assigning \<open>select.value\<close>
  selects the option of exactly that value, or none, which leaves the value empty.
\<close>

definition set_city :: "int option \<Rightarrow> opage \<Rightarrow> opage" where
  "set_city c st =
     (case c of
        None \<Rightarrow> st
      | Some n \<Rightarrow>
          (case city_select st of
             None \<Rightarrow> st
           | Some (opts, _) \<Rightarrow>
               if list_ex (\<lambda>ov. snd ov = Some n) opts
               then st\<lparr>city_select :=
                         Some (opts, if show_int n \<in> set (map fst opts) then show_int n
                                     else [])\<rparr>
               else st))"

definition nonempty :: "string option \<Rightarrow> bool" where
  "nonempty v = (case v of None \<Rightarrow> False | Some s \<Rightarrow> s \<noteq> [])"

text \<open>The six assignments, shared by the found-act branch and \<open>fillFromOrderForActNumber\<close>.\<close>

definition fill_fields :: "'a contact_scheme \<Rightarrow> opage \<Rightarrow> opage" where
  "fill_fields d st =
     (let st1 = setIf ''client_full_name'' (client_full_name d) st;
          st2 = setIf ''address'' (address d) st1;
          st3 = (if nonempty (client_phone d)
                 then st2\<lparr>phone_mask_value := or_default (client_phone d) []\<rparr> else st2);
          st4 = (if nonempty (verification_date d)
                 then setIf ''verification_date'' (verification_date d) st3 else st3);
          st5 = setIf ''legal_entity'' (legal_entity d) st4
      in set_city (city_id d) st5)"

definition fillFromOrderForActNumber :: "opage \<Rightarrow> opage" where
  "fillFromOrderForActNumber st =
     (case prefillData st of None \<Rightarrow> st | Some pre \<Rightarrow> fill_fields pre st)"

subsection \<open>Act-number lookup\<close>

text \<open>
  \<open>queryActNumber\<close> up to its \<open>fetch\<close>: the new page state, and the query key when a
  request was issued.
\<close>

definition queryActNumber_start :: "opage \<Rightarrow> opage \<times> string option" where
  "queryActNumber_start st0 =
     (let st = st0\<lparr>deletedImages := []\<rparr>;
          seriesId = or_default (series_value st) [];
          digits = strip_zeros (digits_only (act_value st))
      in if seriesId = [] then (renderActPhotos [] (oemit [OAlert ChooseSeries] st), None)
         else if digits = [] then (renderActPhotos [] st, None)
         else
           (let num = nat_of_digits digits
            in if \<not> js_finite num \<or> num < 1 then (renderActPhotos [] st, None)
               else if num > INT_MAX
               then (renderActPhotos [] (oemit [OAlert ActTooLarge] st), None)
               else
                 (let queryKey = seriesId @ '':'' @ show_nat num;
                      st1 = st\<lparr>lastActQueryKey := Some queryKey\<rparr>
                  in (oemit [GetActNumber
                               [(''company_id'', js_String (companyId st1)),
                                (''series_id'', seriesId),
                                (''act_number'', show_nat num)]] st1,
                      Some queryKey))))"

text \<open>
  The rest of \<open>queryActNumber\<close>, run when the request has ended, on the page as it is
  by then; \<open>queryKey\<close> is the constant of that call.
\<close>

definition queryActNumber_settle :: "opage \<Rightarrow> string \<Rightarrow> act_body fetch_outcome \<Rightarrow> opage" where
  "queryActNumber_settle st queryKey outcome =
     (case outcome of
        NetworkFailure \<Rightarrow>
          renderActPhotos [] (fillFromOrderForActNumber (oemit [OConsoleError] st))
      | Responded status _ body \<Rightarrow>
          if res_ok status
          then if lastActQueryKey st \<noteq> Some queryKey then st
               else (case body of
                       ActJson d \<Rightarrow>
                         if found d \<noteq> Some False
                         then renderActPhotos (or_default (photos d) []) (fill_fields d st)
                         else renderActPhotos [] (fillFromOrderForActNumber st)
                     | _ \<Rightarrow> renderActPhotos [] (fillFromOrderForActNumber st))
          else renderActPhotos [] (fillFromOrderForActNumber st))"

text \<open>What \<open>setIf\<close>, the phone mask and the city select hold: the form fields of the prefill.\<close>

definition form_fields ::
  "opage \<Rightarrow> (string \<rightharpoonup> string) \<times> string \<times> (city_option list \<times> string) option" where
  "form_fields st = (elements st, phone_mask_value st, city_select st)"

subsection \<open>Submitting the order\<close>

text \<open>
  What the submit handler reads besides the page: the submitter's id, the phone mask's
  unmasked value and completeness, today's date in the company's time zone, the form's
  validity, the entries \<open>new FormData(form)\<close> yields at that point of the handler (the
  text entries; files are sent apart), the chosen photo files, \<open>window.companyTz\<close> and
  \<open>window.orderId\<close>.
\<close>

record submission =
  submitter_id :: "string option"
  phone_unmasked :: string
  phone_complete :: bool
  today :: string
  form_valid :: bool
  form_data :: "(string \<times> string) list"
  photo_files :: "string list"
  companyTz :: jsval
  orderId :: jsval

definition to_json_value :: "string \<Rightarrow> jsval" where
  "to_json_value v =
     (if v = ''True'' then JBool True else if v = ''False'' then JBool False else JStr v)"

text \<open>
  The object sent as \<open>verification_entry_data\<close>; its key \<open>deleted_images_id\<close> holds the
  array \<open>window.deletedImages\<close> and is kept in a field of its own.
\<close>

definition build_payload :: "opage \<Rightarrow> submission \<Rightarrow> nat \<Rightarrow> payload" where
  "build_payload st sub actNum =
     (let tmp = usp_set (form_data sub) ''act_number'' (show_nat actNum);
          ob = foldl (\<lambda>ob p. obj_set (fst p) (to_json_value (snd p)) ob) [] tmp;
          ob1 = obj_set ''company_tz'' (js_or (companyTz sub) (JStr ''Europe/Moscow'')) ob
      in \<lparr>entry_data = obj_delete ''deleted_images_id'' ob1,
          deleted_images_id = deletedImages st,
          new_images = photo_files sub\<rparr>)"

text \<open>
  \<open>rawAct\<close>, \<open>cleaned\<close> and \<open>actNum\<close> of the submit handler: the digits of the field
  without leading zeros, parsed, or \<open>null\<close> (here \<open>None\<close>) when nothing is left.
\<close>

definition normalized_act :: "string \<Rightarrow> nat option" where
  "normalized_act v =
     (let rawAct = digits_only v;
          cleaned = strip_zeros rawAct
      in if cleaned = [] then None else Some (nat_of_digits cleaned))"

text \<open>
  The submit handler up to its \<open>fetch\<close> call. After the phone check it reads
  \<open>verificationDateInput.value\<close>: without the element this throws a \<open>TypeError\<close>.
\<close>

definition submit_handler :: "opage \<Rightarrow> submission \<Rightarrow> opage" where
  "submit_handler st sub =
     (if isSubmitting st then st
      else
        (let redirectFlag = (if submitter_id sub = Some ''submit-order-and-metrolog''
                             then ''1'' else ''0'');
             allowShort = (length (phone_unmasked sub) \<le> 2);
             allowFull = phone_complete sub
         in if \<not> (allowShort \<or> allowFull) then oemit [OAlert PhoneIncomplete] st
            else
              (let st1 = (if allowShort then st\<lparr>phone_input_value := []\<rparr> else st)
               in case elements st1 ''verification_date'' of
                    None \<Rightarrow> oemit [UncaughtTypeError] st1
                  | Some vdate \<Rightarrow>
                      if vdate \<noteq> [] \<and> vdate > today sub
                      then oemit [OAlert DateAfterToday] st1
                      else if \<not> form_valid sub then oemit [ReportValidity] st1
                      else
                        (let actNum = normalized_act (act_value st1)
                         in case actNum of
                              None \<Rightarrow> oemit [OAlert ActNotPositive] st1
                            | Some n \<Rightarrow>
                                if n < 1 then oemit [OAlert ActNotPositive] st1
                                else if n > INT_MAX then oemit [OAlert ActTooLarge] st1
                                else
                                  oemit [PostOrder
                                           [(''company_id'', js_String (companyId st1)),
                                            (''order_id'', js_String (orderId sub)),
                                            (''redirect_to_metrolog_info'', redirectFlag)]
                                           (build_payload st1 sub n)]
                                    (st1\<lparr>isSubmitting := True\<rparr>)))))"

definition is_post :: "order_effect \<Rightarrow> bool" where
  "is_post e = (case e of PostOrder _ _ \<Rightarrow> True | _ \<Rightarrow> False)"

section \<open>Notions used to state the properties\<close>

text \<open>The parameters \<open>buildQuery\<close> holds before it adds the entries of its argument.\<close>

definition company_part :: "vpage \<Rightarrow> search_params" where
  "company_part st =
     (if truthy (getCompanyId st) then [(''company_id'', js_String (getCompanyId st))] else [])"

text \<open>
  The merged request in the words of the specification: the filters of the address,
  overridden by the filters of the form, then the page argument, then the resolved
  limit.
\<close>

definition merged_filters :: "vpage \<Rightarrow> jsnum \<Rightarrow> string \<rightharpoonup> jsval" where
  "merged_filters st page =
     (map_of (getCurrentFiltersFromURL st) ++ map_of (getCurrentFiltersFromForm st))
       (''page'' \<mapsto> JNum page,
        ''limit'' \<mapsto> resolved_limit st (getCurrentFiltersFromURL st))"

text \<open>What the verification list shows: the table, the pagination block and the counters.\<close>

definition display ::
  "vpage \<Rightarrow> row list option \<times> block option \<times> string option \<times> string option \<times> string option"
  where
  "display st =
     (table_body st, pagination_block st, total_entries_text st, verified_entry_text st,
      not_verified_entry_text st)"

text \<open>The number a counter shows, as the delete handler reads it.\<close>

definition counter_value :: "string option \<Rightarrow> int option" where
  "counter_value el =
     (case el of None \<Rightarrow> None | Some txt \<Rightarrow> parseInt (if txt = [] then ''0'' else txt))"

text \<open>
  The steps of the submit handler that come before the act number: no submission under
  way, the phone empty or complete, the verification-date field on the page and its date
  not after today, the form valid.
\<close>

definition reaches_act_check :: "opage \<Rightarrow> submission \<Rightarrow> bool" where
  "reaches_act_check st sub =
     (\<not> isSubmitting st
      \<and> (length (phone_unmasked sub) \<le> 2 \<or> phone_complete sub)
      \<and> (case elements st ''verification_date'' of
            None \<Rightarrow> False
          | Some vdate \<Rightarrow> \<not> (vdate \<noteq> [] \<and> vdate > today sub))
      \<and> form_valid sub)"

definition act_rejected :: "string \<Rightarrow> bool" where
  "act_rejected v =
     (case normalized_act v of None \<Rightarrow> True | Some n \<Rightarrow> n < 1 \<or> n > INT_MAX)"

text \<open>
  What can happen on the order page while lookups are under way: a lookup runs
  (\<open>queryActNumber\<close> up to its \<open>fetch\<close>, on the series and the act number the two
  controls hold by then), the rest of a lookup runs on the end of its request, the user
  types into a field, or the form is submitted.
\<close>

datatype order_event =
    Lookup "string option" string
  | Answer string "act_body fetch_outcome"
  | Typed string string
  | Submitted submission

fun order_step :: "opage \<Rightarrow> order_event \<Rightarrow> opage" where
  "order_step st (Lookup ser act) =
     fst (queryActNumber_start (st\<lparr>series_value := ser, act_value := act\<rparr>))"
| "order_step st (Answer queryKey outcome) = queryActNumber_settle st queryKey outcome"
| "order_step st (Typed ident v) =
     (case elements st ident of
        None \<Rightarrow> st
      | Some _ \<Rightarrow> st\<lparr>elements := (elements st)(ident \<mapsto> v)\<rparr>)"
| "order_step st (Submitted sub) = submit_handler st sub"

fun order_run :: "opage \<Rightarrow> order_event list \<Rightarrow> opage" where
  "order_run st [] = st"
| "order_run st (e # es) = order_run (order_step st e) es"

text \<open>
  The key of the request a lookup issues for a series and the text of the act-number
  field, if it issues one.
\<close>

definition lookup_key :: "string option \<Rightarrow> string \<Rightarrow> string option" where
  "lookup_key ser act =
     (let seriesId = or_default ser [];
          digits = strip_zeros (digits_only act);
          num = nat_of_digits digits
      in if seriesId = [] \<or> digits = [] \<or> \<not> js_finite num \<or> num < 1 \<or> num > INT_MAX
         then None
         else Some (seriesId @ '':'' @ show_nat num))"

text \<open>
  The key of the last lookup among the events that issued a request, or \<open>k\<close> when none
  of them did.
\<close>

fun last_issued :: "string option \<Rightarrow> order_event list \<Rightarrow> string option" where
  "last_issued k [] = k"
| "last_issued k (Lookup ser act # es) =
     last_issued (case lookup_key ser act of None \<Rightarrow> k | Some k' \<Rightarrow> Some k') es"
| "last_issued k (Answer _ _ # es) = last_issued k es"
| "last_issued k (Typed _ _ # es) = last_issued k es"
| "last_issued k (Submitted _ # es) = last_issued k es"

text \<open>Whether an event is a lookup that issues a request.\<close>

fun issues :: "order_event \<Rightarrow> bool" where
  "issues (Lookup ser act) = (lookup_key ser act \<noteq> None)"
| "issues (Answer _ _) = False"
| "issues (Typed _ _) = False"
| "issues (Submitted _) = False"

subsection \<open>Sample pages\<close>

definition sample_list_page :: vpage where
  "sample_list_page =
     \<lparr>location_pathname = ''/verification/'',
      location_search = [(''company_id'', ''7''), (''city_id'', ''4''), (''utm'', ''x'')],
      window_company_id = JStr ''9'',
      filter_form = [(''date_from'', ''2024-01-01''), (''date_to'', []), (''city_id'', ''5'')],
      limit_value = Some ''50'',
      table_body = Some [EntryRow ''11'' ''7'' True, EntryRow ''12'' ''7'' False],
      pagination_block = Some (Items []),
      total_entries_text = Some ''2'',
      verified_entry_text = Some ''1'',
      not_verified_entry_text = Some ''1'',
      effects = []\<rparr>"

definition sample_appeals_page :: apage where
  "sample_appeals_page =
     \<lparr>currentPage = 2,
      status_filter_value = [],
      appeals_body = [AppealRow 31, AppealRow 32],
      pagination_ul = [],
      spinner_hidden = True,
      customerField = False,
      appeals_effects = []\<rparr>"

definition sample_order_page :: opage where
  "sample_order_page =
     \<lparr>series_value = Some ''3'',
      act_value = ''0015'',
      lastActQueryKey = None,
      elements = [''address'' \<mapsto> ''Old street 1'', ''client_full_name'' \<mapsto> ''A'',
                  ''verification_date'' \<mapsto> ''2024-01-01''],
      phone_mask_value = [],
      phone_input_value = [],
      city_select = None,
      photos_shown = [],
      deletedImages = [],
      prefillData = None,
      companyId = JNum ''7'',
      isSubmitting = False,
      order_effects = []\<rparr>"

definition sample_act :: act_data where
  "sample_act =
     \<lparr>client_full_name = None, address = Some ''New street 2'', client_phone = None,
      verification_date = None, legal_entity = None, city_id = None,
      found = Some True, photos = None\<rparr>"

definition sample_submission :: submission where
  "sample_submission =
     \<lparr>submitter_id = None,
      phone_unmasked = ''7'',
      phone_complete = False,
      today = ''2024-06-01'',
      form_valid = True,
      form_data = [(''act_number'', ''0015''), (''water_type'', ''cold''),
                   (''verification_result'', ''True'')],
      photo_files = [],
      companyTz = JUndefined,
      orderId = JNum ''40''\<rparr>"

section \<open>Auxiliary facts\<close>

subsection \<open>Numerals and white space\<close>

lemma digit_nth: "k < 10 \<Longrightarrow> ''0123456789'' ! k \<in> set ''0123456789''"
  by (rule nth_mem) simp

lemma show_nat_digits: "set (show_nat n) \<subseteq> set ''0123456789''"
proof (induction n rule: show_nat.induct)
  case (1 n)
  show ?case
  proof (cases "n < 10")
    case True
    have "show_nat n = [''0123456789'' ! n]"
      using True by (subst show_nat.simps) simp
    then show ?thesis using digit_nth[OF True] by simp
  next
    case False
    have m: "''0123456789'' ! (n mod 10) \<in> set ''0123456789''"
      by (rule digit_nth) simp
    have e: "show_nat n = show_nat (n div 10) @ [''0123456789'' ! (n mod 10)]"
      using False by (subst show_nat.simps) simp
    show ?thesis using 1[OF False] m unfolding e by simp
  qed
qed

lemma show_nat_nonempty: "show_nat n \<noteq> []"
  by (subst show_nat.simps) simp

lemma is_ws_digit: "c \<in> set ''0123456789'' \<Longrightarrow> \<not> is_ws c"
  by (auto simp: is_ws_def)

lemma dropWhile_nonempty: "dropWhile P s \<noteq> [] \<longleftrightarrow> (\<exists>c\<in>set s. \<not> P c)"
  by simp

lemma set_dropWhile_ex: "(\<exists>c\<in>set (dropWhile P s). \<not> P c) \<longleftrightarrow> (\<exists>c\<in>set s. \<not> P c)"
proof
  assume "\<exists>c\<in>set (dropWhile P s). \<not> P c"
  then show "\<exists>c\<in>set s. \<not> P c" using set_dropWhileD by fast
next
  assume "\<exists>c\<in>set s. \<not> P c"
  then obtain c where c: "c \<in> set s" "\<not> P c" by blast
  have "set s = set (takeWhile P s) \<union> set (dropWhile P s)"
    by (metis set_append takeWhile_dropWhile_id)
  moreover have "c \<notin> set (takeWhile P s)" using c(2) set_takeWhileD by fast
  ultimately have "c \<in> set (dropWhile P s)" using c(1) by blast
  with c(2) show "\<exists>c\<in>set (dropWhile P s). \<not> P c" by blast
qed

lemma js_trim_nonempty: "js_trim s \<noteq> [] \<longleftrightarrow> (\<exists>c\<in>set s. \<not> is_ws c)"
  by (simp add: js_trim_def set_dropWhile_ex)

lemma show_nat_not_blank: "js_trim (show_nat m) \<noteq> []"
proof -
  obtain c where c: "c \<in> set (show_nat m)"
    using show_nat_nonempty[of m] by (cases "show_nat m") auto
  then have "\<not> is_ws c" using show_nat_digits[of m] is_ws_digit by blast
  with c show ?thesis unfolding js_trim_nonempty by blast
qed

lemma show_int_not_blank: "js_trim (show_int n) \<noteq> []"
proof (cases "n < 0")
  case True
  have "\<not> is_ws CHR ''-''" by (simp add: is_ws_def)
  then show ?thesis using True unfolding js_trim_nonempty by (auto simp: show_int_def)
next
  case False
  then show ?thesis using show_nat_not_blank by (simp add: show_int_def)
qed

lemma keeps_number: "keeps (JNum n) \<longleftrightarrow> js_trim n \<noteq> []"
  by (simp add: keeps_def)

lemma keeps_whole: "keeps (JNum (show_int n))"
  by (simp add: keeps_def show_int_not_blank)

lemma keeps_not_empty: "keeps v \<Longrightarrow> \<not> is_empty_value v"
  by (auto simp: keeps_def is_empty_value_def js_trim_def)

subsection \<open>Parameter lists and objects\<close>

lemma map_of_usp_set: "map_of (usp_set ps k v) = (map_of ps)(k \<mapsto> v)"
proof (induction ps)
  case Nil
  show ?case by simp
next
  case (Cons p ps)
  obtain k' v' where p: "p = (k', v')" by (cases p)
  have flt: "map_of (filter (\<lambda>p. fst p \<noteq> k) ps) x = map_of ps x" if "x \<noteq> k" for x
    using that by (induction ps) auto
  show ?case
  proof (cases "k' = k")
    case True
    then show ?thesis using flt by (auto simp: p fun_eq_iff)
  next
    case False
    then show ?thesis using Cons by (auto simp: p fun_eq_iff)
  qed
qed

lemma keys_usp_set: "set (map fst (usp_set ps k v)) = insert k (set (map fst ps))"
proof (induction ps)
  case Nil
  show ?case by simp
next
  case (Cons p ps)
  have flt: "set (map fst (filter (\<lambda>p. fst p \<noteq> k) ps)) = set (map fst ps) - {k}"
    by auto
  show ?case
  proof (cases "fst p = k")
    case True
    then show ?thesis using flt by (cases p) auto
  next
    case False
    then show ?thesis using Cons by (cases p) auto
  qed
qed

lemma distinct_usp_set:
  "distinct (map fst ps) \<Longrightarrow> distinct (map fst (usp_set ps k v))"
proof (induction ps)
  case Nil
  show ?case by simp
next
  case (Cons p ps)
  obtain k' v' where p: "p = (k', v')" by (cases p)
  have f: "distinct (map fst (filter (\<lambda>p. fst p \<noteq> k) ps))"
    using Cons.prems by (simp add: distinct_map_filter)
  show ?case
  proof (cases "k' = k")
    case True
    then show ?thesis using f by (auto simp: p)
  next
    case False
    have "k' \<notin> set (map fst (usp_set ps k v))"
      using Cons.prems False unfolding keys_usp_set by (auto simp: p)
    then show ?thesis using Cons False by (simp add: p)
  qed
qed

lemma map_of_obj_put: "map_of (obj_put k v ob) = (map_of ob)(k \<mapsto> v)"
  by (induction ob) (auto simp: fun_eq_iff)

lemma keys_obj_put: "set (map fst (obj_put k v ob)) = insert k (set (map fst ob))"
proof (induction ob)
  case Nil
  show ?case by simp
next
  case (Cons p ob)
  show ?case
  proof (cases "fst p = k")
    case True
    then show ?thesis by (cases p) auto
  next
    case False
    have "set (map fst (obj_put k v (p # ob))) = insert (fst p) (set (map fst (obj_put k v ob)))"
      using False by (cases p) simp
    then show ?thesis unfolding Cons by auto
  qed
qed

lemma distinct_obj_put:
  "distinct (map fst ob) \<Longrightarrow> distinct (map fst (obj_put k v ob))"
proof (induction ob)
  case Nil
  show ?case by simp
next
  case (Cons p ob)
  have "fst p \<noteq> k \<Longrightarrow> fst p \<notin> set (map fst (obj_put k v ob))"
    using Cons.prems unfolding keys_obj_put by auto
  then show ?case using Cons by (cases p) auto
qed

lemma distinct_obj_set:
  "distinct (map fst ob) \<Longrightarrow> distinct (map fst (obj_set k v ob))"
  by (simp add: obj_set_def distinct_obj_put)

lemma set_Object_entries: "set (Object_entries ob) = set ob"
  by (auto simp: Object_entries_def)

lemma distinct_Object_entries:
  assumes "distinct (map fst ob)"
  shows "distinct (map fst (Object_entries ob))"
proof -
  have d: "distinct ob" and i: "inj_on fst (set ob)"
    using assms by (simp_all add: distinct_map)
  have "distinct (Object_entries ob)"
    using d by (auto simp: Object_entries_def)
  then show ?thesis using i by (simp add: distinct_map set_Object_entries)
qed

lemma map_of_Object_entries:
  assumes "distinct (map fst ob)"
  shows "map_of (Object_entries ob) = map_of ob"
  using assms distinct_Object_entries[OF assms] set_Object_entries[of ob]
  by (simp add: map_of_inject_set)

lemma foldl_put_distinct:
  "distinct (map fst t) \<Longrightarrow>
   distinct (map fst (foldl (\<lambda>ob p. obj_put (fst p) (snd p) ob) t es))"
  by (induction es arbitrary: t) (simp_all add: distinct_obj_put)

lemma foldl_put_lookup:
  "distinct (map fst es) \<Longrightarrow>
   map_of (foldl (\<lambda>ob p. obj_put (fst p) (snd p) ob) t es) = map_of t ++ map_of es"
proof (induction es arbitrary: t)
  case Nil
  show ?case by simp
next
  case (Cons e es)
  obtain k v where e: "e = (k, v)" by (cases e)
  have d: "distinct (map fst es)" and n: "k \<notin> fst ` set es"
    using Cons.prems by (simp_all add: e)
  have none: "map_of es k = None" using n by (simp add: map_of_eq_None_iff)
  show ?case
    using Cons.IH[OF d] none
    by (auto simp: e map_of_obj_put fun_eq_iff map_add_def split: option.splits)
qed

lemma distinct_obj_assign:
  "distinct (map fst t) \<Longrightarrow> distinct (map fst (obj_assign t s))"
  by (simp add: obj_assign_def foldl_put_distinct)

lemma map_of_obj_assign:
  assumes "distinct (map fst s)"
  shows "map_of (obj_assign t s) = map_of t ++ map_of s"
  unfolding obj_assign_def
  using foldl_put_lookup[OF distinct_Object_entries[OF assms]]
  by (simp add: map_of_Object_entries[OF assms])

lemma map_of_filter_snd:
  "distinct (map fst xs) \<Longrightarrow>
   map_of (filter (\<lambda>p. Q (snd p)) xs) k =
     (case map_of xs k of Some v \<Rightarrow> if Q v then Some v else None | None \<Rightarrow> None)"
proof (induction xs)
  case Nil
  show ?case by simp
next
  case (Cons x xs)
  obtain a b where x: "x = (a, b)" by (cases x)
  have d: "distinct (map fst xs)" and n: "a \<notin> fst ` set xs"
    using Cons.prems by (simp_all add: x)
  have none: "map_of xs a = None" using n by (simp add: map_of_eq_None_iff)
  have none': "map_of (filter (\<lambda>p. Q (snd p)) xs) a = None"
    using n by (auto simp: map_of_eq_None_iff)
  show ?case
    using Cons.IH[OF d] none none' by (auto simp: x)
qed

subsection \<open>The query codec\<close>

lemma fold_keep_lookup:
  "distinct (map fst es) \<Longrightarrow>
   map_of (foldl (\<lambda>ps p. if keeps (snd p) then usp_set ps (fst p) (js_String (snd p)) else ps)
             ps0 es) k =
   (case map_of es k of
      Some v \<Rightarrow> if keeps v then Some (js_String v) else map_of ps0 k
    | None \<Rightarrow> map_of ps0 k)"
proof (induction es arbitrary: ps0)
  case Nil
  show ?case by simp
next
  case (Cons e es)
  obtain k' v' where e: "e = (k', v')" by (cases e)
  have d: "distinct (map fst es)" and n: "k' \<notin> fst ` set es"
    using Cons.prems by (simp_all add: e)
  have none: "map_of es k' = None" using n by (simp add: map_of_eq_None_iff)
  show ?case
  proof (cases "k = k'")
    case True
    show ?thesis
      using Cons.IH[OF d] none True
      by (simp add: e map_of_usp_set)
  next
    case False
    show ?thesis
      using Cons.IH[OF d] False
      by (simp add: e map_of_usp_set split: option.splits)
  qed
qed

lemma fold_keep_distinct:
  "distinct (map fst ps0) \<Longrightarrow>
   distinct (map fst (foldl (\<lambda>ps p. if keeps (snd p) then usp_set ps (fst p) (js_String (snd p))
                                     else ps) ps0 es))"
  by (induction es arbitrary: ps0) (simp_all add: distinct_usp_set)

lemma buildQuery_fold:
  "buildQuery st ob =
     foldl (\<lambda>ps p. if keeps (snd p) then usp_set ps (fst p) (js_String (snd p)) else ps)
       (company_part st) (Object_entries ob)"
  by (simp add: buildQuery_def company_part_def Let_def)

lemma buildQuery_lookup:
  assumes "distinct (map fst ob)"
  shows "map_of (buildQuery st ob) k =
           (case map_of ob k of
              Some v \<Rightarrow> if keeps v then Some (js_String v) else map_of (company_part st) k
            | None \<Rightarrow> map_of (company_part st) k)"
  unfolding buildQuery_fold
  using fold_keep_lookup[OF distinct_Object_entries[OF assms]]
  by (simp add: map_of_Object_entries[OF assms])

lemma buildQuery_distinct: "distinct (map fst (buildQuery st ob))"
  unfolding buildQuery_fold
  by (rule fold_keep_distinct) (simp add: company_part_def)

subsection \<open>The merged request\<close>

lemma distinct_form_filters: "distinct (map fst (getCurrentFiltersFromForm st))"
proof -
  have "distinct (map fst ob) \<Longrightarrow>
        distinct (map fst (foldl (\<lambda>ob p. if snd p \<noteq> [] then obj_set (fst p) (JStr (snd p)) ob
                                          else ob) ob xs))" for ob :: "jsval obj" and xs
    by (induction xs arbitrary: ob) (simp_all add: distinct_obj_set)
  then show ?thesis by (simp add: getCurrentFiltersFromForm_def)
qed

lemma distinct_url_filters: "distinct (map fst (getCurrentFiltersFromURL st))"
proof -
  have "distinct (map fst ob) \<Longrightarrow>
        distinct (map fst (foldl (\<lambda>out k. case usp_get (location_search st) k of
                                     Some v \<Rightarrow> if v \<noteq> [] then obj_set k (JStr v) out else out
                                   | None \<Rightarrow> out) ob ks))" for ob :: "jsval obj" and ks
    by (induction ks arbitrary: ob) (simp_all add: distinct_obj_set split: option.splits)
  then show ?thesis by (simp add: getCurrentFiltersFromURL_def)
qed

lemma distinct_page_request: "distinct (map fst (page_request st page))"
  by (simp add: page_request_def Let_def distinct_map_filter distinct_obj_put
      distinct_obj_assign)

lemma page_request_lookup:
  "map_of (page_request st page) k =
     (case merged_filters st page k of
        Some v \<Rightarrow> if \<not> is_empty_value v then Some v else None
      | None \<Rightarrow> None)"
proof -
  let ?ob = "obj_put ''limit'' (resolved_limit st (getCurrentFiltersFromURL st))
               (obj_put ''page'' (JNum page)
                  (obj_assign (obj_assign [] (getCurrentFiltersFromURL st))
                     (getCurrentFiltersFromForm st)))"
  have d: "distinct (map fst ?ob)"
    by (simp add: distinct_obj_put distinct_obj_assign)
  have m: "map_of ?ob = merged_filters st page"
    by (simp add: merged_filters_def map_of_obj_put
        map_of_obj_assign[OF distinct_form_filters] map_of_obj_assign[OF distinct_url_filters])
  have "page_request st page = filter (\<lambda>p. \<not> is_empty_value (snd p)) ?ob"
    by (simp add: page_request_def Let_def)
  then show ?thesis
    using map_of_filter_snd[OF d, of "\<lambda>v. \<not> is_empty_value v" k] by (simp add: m)
qed

lemma page_request_page: "map_of (page_request st page) ''page'' = Some (JNum page)"
  by (simp add: page_request_lookup merged_filters_def is_empty_value_def)

lemma query_page:
  "map_of (buildQuery st' (page_request st page)) ''page'' =
     (if js_trim page = [] then None else Some page)"
  by (simp add: buildQuery_lookup[OF distinct_page_request] page_request_page keeps_number
      company_part_def)

lemma query_page_whole:
  "map_of (buildQuery st' (page_request st (show_int n))) ''page'' = Some (show_int n)"
  by (simp add: query_page show_int_not_blank)

lemma query_of_merged:
  "map_of (buildQuery st' (page_request st page)) k =
     (case merged_filters st page k of
        Some v \<Rightarrow> if keeps v then Some (js_String v) else map_of (company_part st') k
      | None \<Rightarrow> map_of (company_part st') k)"
  using keeps_not_empty
  by (auto simp: buildQuery_lookup[OF distinct_page_request] page_request_lookup
      split: option.splits)

subsection \<open>Effects of the list fetcher\<close>

lemma load_prepare_effects:
  "effects (fst (load_prepare st page)) =
     effects st @ [ReplaceState (location_pathname st) (buildQuery st (page_request st page))]"
  by (simp add: load_prepare_def pushURLState_def Let_def emit_def)

lemma load_prepare_search:
  "location_search (fst (load_prepare st page)) = buildQuery st (page_request st page)"
  by (simp add: load_prepare_def pushURLState_def Let_def emit_def)

lemma load_prepare_display: "display (fst (load_prepare st page)) = display st"
  by (simp add: load_prepare_def pushURLState_def Let_def emit_def display_def)

lemma safeFetch_effects:
  "effects (fst (safeFetch st m p q a outcome)) =
     effects st @ Fetch m p q #
       (case outcome of
          NetworkFailure \<Rightarrow> [ConsoleError, ShowAlert (NetworkError a)]
        | Responded status statusText b \<Rightarrow>
            if res_ok status then []
            else [ConsoleError, ShowAlert (HttpError a status statusText)])"
  by (simp add: safeFetch_def Let_def emit_def split: fetch_outcome.splits)

lemma safeFetch_display: "display (fst (safeFetch st m p q a outcome)) = display st"
  by (simp add: safeFetch_def Let_def emit_def display_def split: fetch_outcome.splits)

lemma safeFetch_result:
  "snd (safeFetch st m p q a outcome) =
     (case outcome of
        NetworkFailure \<Rightarrow> None
      | Responded status statusText b \<Rightarrow> if res_ok status then Some b else None)"
  by (simp add: safeFetch_def Let_def split: fetch_outcome.splits)

subsection \<open>Reading numbers back\<close>

lemma digit_val_table: "list_all (\<lambda>d. digit_val (''0123456789'' ! d) = d) [0..<10]"
  by code_simp

lemma digit_val_nth: "d < 10 \<Longrightarrow> digit_val (''0123456789'' ! d) = d"
  using digit_val_table unfolding list_all_iff by simp

lemma nat_of_digits_snoc: "nat_of_digits (ds @ [c]) = 10 * nat_of_digits ds + digit_val c"
  by (simp add: nat_of_digits_def)

lemma nat_of_digits_show_nat: "nat_of_digits (show_nat n) = n"
proof (induction n rule: show_nat.induct)
  case (1 n)
  show ?case
  proof (cases "n < 10")
    case True
    have "show_nat n = [''0123456789'' ! n]"
      using True by (subst show_nat.simps) simp
    then show ?thesis using digit_val_nth[OF True] by (simp add: nat_of_digits_def)
  next
    case False
    have e: "show_nat n = show_nat (n div 10) @ [''0123456789'' ! (n mod 10)]"
      using False by (subst show_nat.simps) simp
    have "digit_val (''0123456789'' ! (n mod 10)) = n mod 10"
      by (rule digit_val_nth) simp
    then show ?thesis using 1[OF False] unfolding e nat_of_digits_snoc by simp
  qed
qed

lemma show_nat_all_digits: "takeWhile is_digit (show_nat n) = show_nat n"
proof -
  have "\<forall>c\<in>set (show_nat n). is_digit c"
    using show_nat_digits[of n] unfolding is_digit_def by blast
  then show ?thesis by simp
qed

lemma show_nat_hd: "hd (show_nat n) \<in> set ''0123456789''"
proof -
  have "hd (show_nat n) \<in> set (show_nat n)"
    using show_nat_nonempty[of n] by (rule hd_in_set)
  then show ?thesis using show_nat_digits[of n] by (rule subsetD[rotated])
qed


lemma hd_digit_not_sign:
  "c \<in> set ''0123456789'' \<Longrightarrow> c \<noteq> CHR ''-'' \<and> c \<noteq> CHR ''+''"
  by auto

lemma parseInt_show_nat: "parseInt (show_nat n) = Some (int n)"
proof -
  obtain c cs where sn: "show_nat n = c # cs"
    using show_nat_nonempty[of n] by (cases "show_nat n") auto
  have c: "c \<in> set ''0123456789''" using show_nat_hd[of n] sn by simp
  have ws: "\<not> is_ws c" using c by (rule is_ws_digit)
  have sg: "c \<noteq> CHR ''-''" "c \<noteq> CHR ''+''" using hd_digit_not_sign[OF c] by simp_all
  have d: "dropWhile is_ws (show_nat n) = show_nat n" using ws by (simp add: sn)
  have t: "takeWhile is_digit (c # cs) = c # cs" using show_nat_all_digits[of n] sn by simp
  have v: "nat_of_digits (c # cs) = n" using nat_of_digits_show_nat[of n] sn by simp
  show ?thesis
    unfolding parseInt_def d unfolding sn Let_def using sg t v by simp
qed


lemma parseInt_show_int: "parseInt (show_int i) = Some i"
proof (cases "i < 0")
  case False
  then show ?thesis by (simp add: show_int_def parseInt_show_nat)
next
  case True
  let ?n = "nat (- i)"
  obtain c cs where sn: "show_nat ?n = c # cs"
    using show_nat_nonempty[of ?n] by (cases "show_nat ?n") auto
  have t: "takeWhile is_digit (c # cs) = c # cs" using show_nat_all_digits[of ?n] sn by simp
  have v: "nat_of_digits (c # cs) = ?n" using nat_of_digits_show_nat[of ?n] sn by simp
  have ws: "\<not> is_ws CHR ''-''" by (simp add: is_ws_def)
  have "parseInt (CHR ''-'' # c # cs) = Some (- int ?n)"
    unfolding parseInt_def Let_def using ws t v by simp
  then show ?thesis using True by (simp add: show_int_def sn)
qed

lemma to_whole_show_int: "\<bar>i\<bar> + 3 < 9007199254740992 \<Longrightarrow> to_whole (show_int i) = Some i"
  by (simp add: to_whole_def parseInt_show_int)

lemma to_whole_image: "to_whole n = Some i \<Longrightarrow> n = show_int i"
  by (auto simp: to_whole_def split: option.splits if_splits)

lemma counter_value_dec:
  assumes "counter_value el = Some n"
  shows "counter_value (dec_counter el) = Some (if n > 0 then n - 1 else n)"
proof -
  obtain tx where el: "el = Some tx"
    using assms by (cases el) (simp_all add: counter_value_def)
  have p: "parseInt (if tx = [] then ''0'' else tx) = Some n"
    using assms by (simp add: el counter_value_def)
  show ?thesis
  proof (cases "n > 0")
    case True
    have "show_int (n - 1) = show_nat (nat (n - 1))" using True by (simp add: show_int_def)
    then have "counter_value (Some (show_int (n - 1))) = Some (n - 1)"
      using True by (simp add: counter_value_def show_nat_nonempty parseInt_show_nat)
    moreover have "dec_counter el = Some (show_int (n - 1))"
      using True p by (simp add: el dec_counter_def)
    ultimately show ?thesis using True by simp
  next
    case False
    have "dec_counter el = el" using False p by (simp add: el dec_counter_def)
    then show ?thesis using False assms by simp
  qed
qed

subsection \<open>The first effects of a load\<close>

lemma load_first_effects:
  "take (length (effects st) + 2) (effects (loadVerificationEntries st page outcome)) =
     effects st @
     [ReplaceState (location_pathname st) (buildQuery st (page_request st page)),
      Fetch ''GET'' ''/verification/api/verifications-control/''
        (Encoded (snd (load_prepare st page)))]"
proof -
  obtain st1 q where lp: "load_prepare st page = (st1, q)" by (cases "load_prepare st page")
  have e1: "effects st1 =
      effects st @ [ReplaceState (location_pathname st) (buildQuery st (page_request st page))]"
    using load_prepare_effects[of st page] lp by simp
  obtain st2 res where sf: "safeFetch st1 ''GET'' ''/verification/api/verifications-control/''
      (Encoded q) LoadEntries outcome = (st2, res)"
    by (cases "safeFetch st1 ''GET'' ''/verification/api/verifications-control/''
      (Encoded q) LoadEntries outcome")
  have e2: "\<exists>es. effects st2 = effects st1 @
      Fetch ''GET'' ''/verification/api/verifications-control/'' (Encoded q) # es"
    using safeFetch_effects[of st1 "''GET''" "''/verification/api/verifications-control/''"
        "Encoded q" LoadEntries outcome] sf by simp
  have r: "\<exists>es. effects (load_render st2 page b) = effects st2 @ es" for b
    by (cases b)
      (simp_all add: load_render_def emit_def renderStats_def renderVerificationTable_def
        renderPagination_def renderPagination_any_def Let_def split: option.splits sum.splits)
  have "\<exists>es. effects (loadVerificationEntries st page outcome) = effects st2 @ es"
    using r by (cases res) (simp_all add: loadVerificationEntries_def lp sf)
  then obtain es es' where "effects (loadVerificationEntries st page outcome) =
      (effects st @
       [ReplaceState (location_pathname st) (buildQuery st (page_request st page)),
        Fetch ''GET'' ''/verification/api/verifications-control/'' (Encoded q)]) @ es @ es'"
    using e1 e2 by auto
  then show ?thesis by (simp add: lp)
qed

subsection \<open>The order page\<close>

lemma map_of_filter_key:
  "k \<noteq> k' \<Longrightarrow> map_of (filter (\<lambda>p. fst p \<noteq> k') xs) k = map_of xs k"
  by (induction xs) auto

lemma foldl_put_conv_lookup:
  "map_of (foldl (\<lambda>ob p. obj_put (fst p) (f (snd p)) ob) ob0 xs) =
     map_of ob0 ++ map_of (rev (map (\<lambda>p. (fst p, f (snd p))) xs))"
proof (induction xs arbitrary: ob0)
  case Nil
  show ?case by simp
next
  case (Cons p xs)
  show ?case
    unfolding foldl_Cons Cons.IH
    by (auto simp: map_of_obj_put fun_eq_iff map_add_def split: option.splits)
qed

lemma foldl_set_conv_put:
  "foldl (\<lambda>ob p. obj_set (fst p) (f (snd p)) ob) ob0 xs =
     foldl (\<lambda>ob p. obj_put (fst p) (f (snd p)) ob) ob0
       (filter (\<lambda>p. fst p \<noteq> ''__proto__'') xs)"
  by (induction xs arbitrary: ob0) (simp_all add: obj_set_def)

lemma usp_set_unique: "(k, y) \<in> set (usp_set ps k v) \<longleftrightarrow> y = v"
proof (induction ps)
  case Nil
  show ?case by simp
next
  case (Cons p ps)
  obtain k' v' where p: "p = (k', v')" by (cases p)
  show ?case
  proof (cases "k' = k")
    case True
    then show ?thesis by (auto simp: p)
  next
    case False
    then show ?thesis using Cons by (simp add: p)
  qed
qed

lemma map_of_unique:
  assumes "(k, x) \<in> set xs" and "\<And>y. (k, y) \<in> set xs \<Longrightarrow> y = x"
  shows "map_of xs k = Some x"
proof -
  obtain y where y: "map_of xs k = Some y"
    using assms(1) weak_map_of_SomeI by fast
  then have "(k, y) \<in> set xs" by (rule map_of_SomeD)
  then show ?thesis using assms(2) y by simp
qed

lemma show_nat_not_boolean: "to_json_value (show_nat n) = JStr (show_nat n)"
proof -
  have "CHR ''T'' \<notin> set (show_nat n)" "CHR ''F'' \<notin> set (show_nat n)"
    using show_nat_digits[of n] by auto
  then have "show_nat n \<noteq> ''True''" "show_nat n \<noteq> ''False''" by auto
  then show ?thesis by (simp add: to_json_value_def)
qed

lemma payload_act_number:
  "obj_get (entry_data (build_payload st sub n)) ''act_number'' = Some (JStr (show_nat n))"
proof -
  let ?all = "usp_set (form_data sub) ''act_number'' (show_nat n)"
  let ?tmp = "filter (\<lambda>p. fst p \<noteq> ''__proto__'') ?all"
  let ?g = "\<lambda>p. (fst p, to_json_value (snd p))"
  have in_tmp: "(''act_number'', show_nat n) \<in> set ?tmp"
    using usp_set_unique[of "''act_number''" "show_nat n" "form_data sub" "show_nat n"] by simp
  have m: "(''act_number'', JStr (show_nat n)) \<in> set (rev (map ?g ?tmp))"
    using in_tmp show_nat_not_boolean[of n] by force
  have u: "y = JStr (show_nat n)" if "(''act_number'', y) \<in> set (rev (map ?g ?tmp))" for y
  proof -
    from that obtain z where "(''act_number'', z) \<in> set ?all" "y = to_json_value z" by auto
    then show ?thesis using usp_set_unique show_nat_not_boolean by metis
  qed
  have l: "map_of (rev (map ?g ?tmp)) ''act_number'' = Some (JStr (show_nat n))"
    using map_of_unique[OF m u] by simp
  show ?thesis
    unfolding build_payload_def Let_def foldl_set_conv_put
    by (simp add: obj_get_def obj_delete_def map_of_filter_key obj_set_def map_of_obj_put
        foldl_put_conv_lookup l)
qed

lemma build_payload_phone:
  "build_payload (st\<lparr>phone_input_value := v\<rparr>) sub n = build_payload st sub n"
  by (simp add: build_payload_def)

lemma split_at_last:
  assumes "c \<notin> set ys" and "c \<notin> set ys'" and "xs @ c # ys = xs' @ c # ys'"
  shows "xs = xs' \<and> ys = ys'"
proof -
  have r: "rev ys @ c # rev xs = rev ys' @ c # rev xs'"
    using arg_cong[OF assms(3), of rev] by simp
  have t: "takeWhile (\<lambda>x. x \<noteq> c) (zs @ c # ws) = zs" if "c \<notin> set zs" for zs ws :: "'a list"
    using that by (induction zs) auto
  have "takeWhile (\<lambda>x. x \<noteq> c) (rev ys @ c # rev xs) = rev ys"
    using assms(1) by (intro t) simp
  moreover have "takeWhile (\<lambda>x. x \<noteq> c) (rev ys' @ c # rev xs') = rev ys'"
    using assms(2) by (intro t) simp
  ultimately have "rev ys = rev ys'" using r by simp
  then show ?thesis using assms(3) by simp
qed

lemma show_nat_inject: "show_nat m = show_nat n \<Longrightarrow> m = n"
  using nat_of_digits_show_nat by metis

lemma query_key_inject:
  "s @ '':'' @ show_nat m = s' @ '':'' @ show_nat n \<longleftrightarrow> s = s' \<and> m = n"
proof
  assume a: "s @ '':'' @ show_nat m = s' @ '':'' @ show_nat n"
  have "CHR '':'' \<notin> set (show_nat m)" "CHR '':'' \<notin> set (show_nat n)"
    using show_nat_digits by auto
  then have "s = s' \<and> show_nat m = show_nat n"
    using split_at_last[of "CHR '':''" "show_nat m" "show_nat n" s s'] a by simp
  then show "s = s' \<and> m = n" using show_nat_inject by blast
next
  assume "s = s' \<and> m = n"
  then show "s @ '':'' @ show_nat m = s' @ '':'' @ show_nat n" by simp
qed

subsection \<open>The recorded key\<close>

lemma setIf_key: "lastActQueryKey (setIf ident val st) = lastActQueryKey st"
  by (simp add: setIf_def split: option.splits)

lemma set_city_key: "lastActQueryKey (set_city c st) = lastActQueryKey st"
  by (simp add: set_city_def split: option.splits prod.splits)

lemma fill_fields_key: "lastActQueryKey (fill_fields d st) = lastActQueryKey st"
  by (simp add: fill_fields_def Let_def setIf_key set_city_key)

lemma fillFromOrder_key: "lastActQueryKey (fillFromOrderForActNumber st) = lastActQueryKey st"
  by (simp add: fillFromOrderForActNumber_def fill_fields_key split: option.splits)

lemma settle_key:
  "lastActQueryKey (queryActNumber_settle st queryKey outcome) = lastActQueryKey st"
proof (cases outcome)
  case NetworkFailure
  then show ?thesis
    by (simp add: queryActNumber_settle_def renderActPhotos_def fillFromOrder_key oemit_def)
next
  case (Responded status statusText body)
  then show ?thesis
    by (cases body)
      (simp_all add: queryActNumber_settle_def renderActPhotos_def fillFromOrder_key
        fill_fields_key)
qed

lemma setIf_elements:
  "elements (setIf ident val st) =
     (case val of
        None \<Rightarrow> elements st
      | Some v \<Rightarrow>
          (case elements st ident of
             None \<Rightarrow> elements st
           | Some _ \<Rightarrow> (elements st)(ident \<mapsto> v)))"
  by (simp add: setIf_def split: option.splits)

lemma set_city_elements: "elements (set_city c st) = elements st"
  by (simp add: set_city_def split: option.splits prod.splits)

lemma fill_fields_address:
  assumes "address d = Some v" and "elements st ''address'' = Some old"
  shows "elements (fill_fields d st) ''address'' = Some v"
  using assms
  by (simp add: fill_fields_def Let_def setIf_elements set_city_elements split: option.splits)

lemma start_elements: "elements (fst (queryActNumber_start st)) = elements st"
  by (simp add: queryActNumber_start_def Let_def renderActPhotos_def oemit_def)

lemma start_issues:
  "snd (queryActNumber_start st) = lookup_key (series_value st) (act_value st)"
  by (simp add: queryActNumber_start_def lookup_key_def Let_def)

lemma start_key:
  "lastActQueryKey (fst (queryActNumber_start st)) =
     (case lookup_key (series_value st) (act_value st) of
        None \<Rightarrow> lastActQueryKey st
      | Some k \<Rightarrow> Some k)"
  by (simp add: queryActNumber_start_def lookup_key_def Let_def renderActPhotos_def oemit_def)

lemma submit_key: "lastActQueryKey (submit_handler st sub) = lastActQueryKey st"
  by (simp add: submit_handler_def Let_def oemit_def split: option.splits)

lemma step_key: "lastActQueryKey (order_step st e) = last_issued (lastActQueryKey st) [e]"
  by (cases e) (simp_all add: start_key settle_key submit_key split: option.splits)

lemma run_key: "lastActQueryKey (order_run st es) = last_issued (lastActQueryKey st) es"
proof (induction es arbitrary: st)
  case Nil
  show ?case by simp
next
  case (Cons e es)
  show ?case unfolding order_run.simps Cons.IH step_key by (cases e) simp_all
qed

lemma run_append: "order_run st (es @ es') = order_run (order_run st es) es'"
  by (induction es arbitrary: st) simp_all

lemma last_issued_append: "last_issued k (es @ es') = last_issued (last_issued k es) es'"
proof (induction es arbitrary: k)
  case Nil
  show ?case by simp
next
  case (Cons e es)
  show ?case using Cons.IH by (cases e) simp_all
qed

lemma last_issued_quiet: "list_all (\<lambda>e. \<not> issues e) es \<Longrightarrow> last_issued k es = k"
proof (induction es)
  case Nil
  show ?case by simp
next
  case (Cons e es)
  then show ?case by (cases e) simp_all
qed

subsection \<open>Evaluations on the sample pages\<close>

lemma upto_1_10: "[1..10] = [1, 2, 3, 4, 5, 6, 7, 8, 9, (10::int)]"
  by code_simp

lemma upto_small: "[1..1] = [1::int]" "[1..0] = ([]::int list)" "[1..3] = [1, 2, 3::int]"
  by code_simp+

lemma keeps_samples:
  "keeps (JStr ''2024-01-01'')" "\<not> keeps (JStr ''  '')" "\<not> keeps JNull" "\<not> keeps (JStr [])"
  "\<not> keeps (JStr [CHR 0xA0])" "keeps (JNum ''NaN'')"
  by (simp_all add: keeps_def js_trim_def is_ws_def)

lemma sample_request_query:
  "buildQuery sample_list_page (page_request sample_list_page ''2'') =
     [(''company_id'', ''7''), (''city_id'', ''5''), (''date_from'', ''2024-01-01''),
      (''page'', ''2''), (''limit'', ''50'')]"
  by code_simp

lemma sample_digits:
  "strip_zeros (digits_only ''0015'') = ''15''" "strip_zeros (digits_only ''16'') = ''16''"
  "nat_of_digits ''15'' = 15" "nat_of_digits ''16'' = 16"
  "js_finite 15" "js_finite 16"
  by (simp_all add: strip_zeros_def digits_only_def is_digit_def nat_of_digits_def digit_val_def
      js_finite_def)

lemma sample_numerals:
  "show_nat 15 = ''15''" "show_nat 16 = ''16''" "show_int 2 = ''2''" "show_int 3 = ''3''"
  by code_simp+

lemma sample_keys:
  "lookup_key (Some ''3'') ''0015'' = Some ''3:15''"
  "lookup_key (Some ''3'') ''16'' = Some ''3:16''"
  by (simp_all add: lookup_key_def Let_def or_default_def sample_digits sample_numerals
      INT_MAX_def)

lemma sample_lookup:
  "queryActNumber_start sample_order_page =
     (sample_order_page
        \<lparr>lastActQueryKey := Some ''3:15'',
         order_effects :=
           [GetActNumber [(''company_id'', ''7''), (''series_id'', ''3''), (''act_number'', ''15'')]]\<rparr>,
      Some ''3:15'')"
  by (simp add: queryActNumber_start_def sample_order_page_def Let_def or_default_def
      sample_digits sample_numerals INT_MAX_def oemit_def renderActPhotos_def)

lemma sample_second_lookup:
  "snd (queryActNumber_start
     (sample_order_page
        \<lparr>lastActQueryKey := Some ''3:15'',
         order_effects :=
           [GetActNumber [(''company_id'', ''7''), (''series_id'', ''3''), (''act_number'', ''15'')]],
         act_value := ''16''\<rparr>)) = Some ''3:16''"
  "elements (fst (queryActNumber_start
     (sample_order_page
        \<lparr>lastActQueryKey := Some ''3:15'',
         order_effects :=
           [GetActNumber [(''company_id'', ''7''), (''series_id'', ''3''), (''act_number'', ''15'')]],
         act_value := ''16''\<rparr>))) = elements sample_order_page"
  by (simp_all add: queryActNumber_start_def sample_order_page_def Let_def or_default_def
      sample_digits sample_numerals INT_MAX_def oemit_def renderActPhotos_def)

lemma sample_repeated_lookup:
  "queryActNumber_start
     (sample_order_page
        \<lparr>lastActQueryKey := Some ''3:15'',
         order_effects :=
           [GetActNumber [(''company_id'', ''7''), (''series_id'', ''3''), (''act_number'', ''15'')]]\<rparr>) =
     (sample_order_page
        \<lparr>lastActQueryKey := Some ''3:15'',
         order_effects :=
           [GetActNumber [(''company_id'', ''7''), (''series_id'', ''3''), (''act_number'', ''15'')],
            GetActNumber [(''company_id'', ''7''), (''series_id'', ''3''), (''act_number'', ''15'')]]\<rparr>,
      Some ''3:15'')"
  by (simp add: queryActNumber_start_def sample_order_page_def Let_def or_default_def
      sample_digits sample_numerals INT_MAX_def oemit_def renderActPhotos_def)

section \<open>Properties\<close>

subsection \<open>Failed list loads\<close>

text \<open>
  Claim C1, as amended. When the request of the verification list ends with a status
  outside 200..299 or fails on the network, the load stops after the notification: the
  table, the pagination block and the counters are as before, and the effects are the
  address update, the request, the console message and the notification. The appeals
  list works otherwise: it empties its table before it asks the server, so the rows
  shown before never survive a load, and a rejected request leaves one row that holds
  the error message.
\<close>

theorem failed_load_display:
  "(\<not> res_ok status \<longrightarrow>
      display (loadVerificationEntries st page (Responded status statusText body)) = display st
      \<and> effects (loadVerificationEntries st page (Responded status statusText body)) =
          effects st @
          [ReplaceState (location_pathname st) (buildQuery st (page_request st page)),
           Fetch ''GET'' ''/verification/api/verifications-control/''
             (Encoded (snd (load_prepare st page))),
           ConsoleError, ShowAlert (HttpError LoadEntries status statusText)])
   \<and> display (loadVerificationEntries st page NetworkFailure) = display st
   \<and> effects (loadVerificationEntries st page NetworkFailure) =
        effects st @
        [ReplaceState (location_pathname st) (buildQuery st (page_request st page)),
         Fetch ''GET'' ''/verification/api/verifications-control/''
           (Encoded (snd (load_prepare st page))),
         ConsoleError, ShowAlert (NetworkError LoadEntries)]
   \<and> appeals_body (loadAppeals ast aout) =
        (case aout of
           Fulfilled d \<Rightarrow> map AppealRow (data_items d)
         | Rejected message \<Rightarrow> [ErrorRow (if customerField ast then 7 else 6) message])"
proof -
  obtain st1 q where lp: "load_prepare st page = (st1, q)" by (cases "load_prepare st page")
  have e1: "effects st1 =
      effects st @ [ReplaceState (location_pathname st) (buildQuery st (page_request st page))]"
    using load_prepare_effects[of st page] lp by simp
  have d1: "display st1 = display st"
    using load_prepare_display[of st page] lp by simp
  have net: "loadVerificationEntries st page NetworkFailure =
      fst (safeFetch st1 ''GET'' ''/verification/api/verifications-control/'' (Encoded q)
             LoadEntries (NetworkFailure :: list_body fetch_outcome))"
    by (simp add: loadVerificationEntries_def lp safeFetch_def Let_def)
  have http: "loadVerificationEntries st page (Responded status statusText body) =
      fst (safeFetch st1 ''GET'' ''/verification/api/verifications-control/'' (Encoded q)
             LoadEntries (Responded status statusText body))" if "\<not> res_ok status"
    using that by (simp add: loadVerificationEntries_def lp safeFetch_def Let_def)
  have ap: "appeals_body (loadAppeals ast aout) =
        (case aout of
           Fulfilled d \<Rightarrow> map AppealRow (data_items d)
         | Rejected message \<Rightarrow> [ErrorRow (if customerField ast then 7 else 6) message])"
    by (cases aout) (simp_all add: loadAppeals_def Let_def)
  show ?thesis
    by (simp add: net http safeFetch_effects safeFetch_display e1 d1 lp ap)
qed

text \<open>The theorem at a response with status 500: the two rows of the sample page stay.\<close>

theorem failed_load_display_witness:
  "\<not> res_ok 500
   \<and> table_body (loadVerificationEntries sample_list_page ''2''
        (Responded 500 ''Internal Server Error'' MalformedJson)) =
       Some [EntryRow ''11'' ''7'' True, EntryRow ''12'' ''7'' False]"
proof -
  have r: "\<not> res_ok 500" by (simp add: res_ok_def)
  have "display (loadVerificationEntries sample_list_page ''2''
          (Responded 500 ''Internal Server Error'' MalformedJson)) = display sample_list_page"
    using failed_load_display[of 500 sample_list_page "''2''" "''Internal Server Error''" MalformedJson]
      r by blast
  then show ?thesis using r by (simp add: display_def sample_list_page_def)
qed

text \<open>
  The claim as it was stated fails on the appeals list: a rejected request leaves the
  error row in place of the two rows shown before.
\<close>

theorem appeals_failed_load_drops_rows:
  "appeals_body (loadAppeals sample_appeals_page (Rejected ''HTTP 500'')) = [ErrorRow 6 ''HTTP 500'']
   \<and> appeals_body (loadAppeals sample_appeals_page (Rejected ''HTTP 500''))
       \<noteq> appeals_body sample_appeals_page"
  by (simp add: loadAppeals_def sample_appeals_page_def Let_def)

subsection \<open>The query codec\<close>

text \<open>
  Claim C2, as amended. For an object (its keys are distinct), the parameters
  \<open>buildQuery\<close> returns are, each name once: every entry that \<open>keeps\<close> admits (not
  \<open>undefined\<close>, not \<open>null\<close>, not empty after trimming), with its value as a string; and
  \<open>company_id\<close>, unless a kept entry of that name overrides it, whenever the resolved
  company id is non-empty. The company id is resolved from the address whenever the
  address has the parameter, even with an empty value, and from the page-global default
  only when the address has none.
\<close>

theorem buildQuery_contents:
  assumes "distinct (map fst paramsObj)"
  shows
    "usp_get (buildQuery st paramsObj) k =
       (case obj_get paramsObj k of
          Some v \<Rightarrow>
            if keeps v then Some (js_String v)
            else if k = ''company_id'' \<and> truthy (getCompanyId st)
            then Some (js_String (getCompanyId st)) else None
        | None \<Rightarrow>
            if k = ''company_id'' \<and> truthy (getCompanyId st)
            then Some (js_String (getCompanyId st)) else None)
     \<and> distinct (map fst (buildQuery st paramsObj))
     \<and> getCompanyId st =
         (case usp_get (location_search st) ''company_id'' of
            Some v \<Rightarrow> JStr v
          | None \<Rightarrow> if truthy (window_company_id st) then window_company_id st else JStr [])"
proof -
  have c: "map_of (company_part st) k =
      (if k = ''company_id'' \<and> truthy (getCompanyId st)
       then Some (js_String (getCompanyId st)) else None)"
    by (simp add: company_part_def)
  have one: "usp_get (buildQuery st paramsObj) k =
       (case obj_get paramsObj k of
          Some v \<Rightarrow>
            if keeps v then Some (js_String v)
            else if k = ''company_id'' \<and> truthy (getCompanyId st)
            then Some (js_String (getCompanyId st)) else None
        | None \<Rightarrow>
            if k = ''company_id'' \<and> truthy (getCompanyId st)
            then Some (js_String (getCompanyId st)) else None)"
    unfolding usp_get_def obj_get_def buildQuery_lookup[OF assms] c ..
  have three: "getCompanyId st =
         (case usp_get (location_search st) ''company_id'' of
            Some v \<Rightarrow> JStr v
          | None \<Rightarrow> if truthy (window_company_id st) then window_company_id st else JStr [])"
    by (simp add: getCompanyId_def js_or_def split: option.splits)
  from one buildQuery_distinct[of st paramsObj] three show ?thesis by blast
qed

text \<open>
  The theorem on the sample page: a value of spaces and a value that is one no-break
  space are left out, and the company id of the address is sent.
\<close>

theorem buildQuery_contents_witness:
  "distinct (map fst [(''page'', JNum ''2''), (''date_from'', JStr ''2024-01-01''),
                      (''date_to'', JStr ''  ''), (''city_id'', JNull),
                      (''client_address'', JStr [CHR 0xA0])])
   \<and> usp_get (buildQuery sample_list_page
        [(''page'', JNum ''2''), (''date_from'', JStr ''2024-01-01''),
         (''date_to'', JStr ''  ''), (''city_id'', JNull),
         (''client_address'', JStr [CHR 0xA0])]) ''date_to'' = None
   \<and> usp_get (buildQuery sample_list_page
        [(''page'', JNum ''2''), (''date_from'', JStr ''2024-01-01''),
         (''date_to'', JStr ''  ''), (''city_id'', JNull),
         (''client_address'', JStr [CHR 0xA0])]) ''client_address'' = None
   \<and> usp_get (buildQuery sample_list_page
        [(''page'', JNum ''2''), (''date_from'', JStr ''2024-01-01''),
         (''date_to'', JStr ''  ''), (''city_id'', JNull),
         (''client_address'', JStr [CHR 0xA0])]) ''company_id'' = Some ''7''"
proof -
  let ?ob = "[(''page'', JNum ''2''), (''date_from'', JStr ''2024-01-01''),
              (''date_to'', JStr ''  ''), (''city_id'', JNull),
              (''client_address'', JStr [CHR 0xA0])]"
  have d: "distinct (map fst ?ob)" by simp
  have g: "getCompanyId sample_list_page = JStr ''7''"
    by (simp add: getCompanyId_def sample_list_page_def usp_get_def)
  have a: "usp_get (buildQuery sample_list_page ?ob) ''date_to'' = None"
    using conjunct1[OF buildQuery_contents[OF d, of sample_list_page "''date_to''"]]
    by (simp add: obj_get_def keeps_samples)
  have n: "usp_get (buildQuery sample_list_page ?ob) ''client_address'' = None"
    using conjunct1[OF buildQuery_contents[OF d, of sample_list_page "''client_address''"]]
    by (simp add: obj_get_def keeps_samples)
  have b: "usp_get (buildQuery sample_list_page ?ob) ''company_id'' = Some ''7''"
    using conjunct1[OF buildQuery_contents[OF d, of sample_list_page "''company_id''"]]
    by (simp add: obj_get_def g)
  show ?thesis using d a n b by simp
qed

text \<open>
  The claim as it was stated fails when the address carries \<open>company_id\<close> with an empty
  value while the page-global default is set: the parameter is present in the address and
  the default is present, yet the query has no \<open>company_id\<close>.
\<close>

theorem empty_url_company_id_hides_default:
  "usp_has (location_search (sample_list_page\<lparr>location_search := [(''company_id'', [])]\<rparr>))
     ''company_id''
   \<and> window_company_id (sample_list_page\<lparr>location_search := [(''company_id'', [])]\<rparr>) = JStr ''9''
   \<and> buildQuery (sample_list_page\<lparr>location_search := [(''company_id'', [])]\<rparr>)
        [(''date_from'', JStr ''2024-01-01'')] = [(''date_from'', ''2024-01-01'')]"
  by (simp add: sample_list_page_def usp_has_def buildQuery_def getCompanyId_def usp_get_def
      Object_entries_def is_array_index_def is_digit_def keeps_samples Let_def)

text \<open>An entry named \<open>company_id\<close> replaces the company id of the address.\<close>

lemma company_id_entry_overrides:
  "buildQuery sample_list_page [(''company_id'', JStr ''8'')] = [(''company_id'', ''8'')]"
  by code_simp

subsection \<open>The address is written before the request\<close>

text \<open>
  Claim C3. Every run of \<open>loadVerificationEntries\<close>, whatever number it is called with,
  first replaces the state of the address bar with the query of the merged request and
  only then issues the GET request: the part that runs before \<open>fetch\<close> already leaves the
  new query in the address, whatever becomes of the request, and the first two effects of
  a whole run are the \<open>replaceState\<close> and the request, in this order. The merged request
  holds, for each key, the value of the address overridden by the form's, then the page
  argument and the resolved limit, without the empty values; the query written holds
  these values as strings, beside the company id, without those that are empty after
  trimming. The page is written as \<open>String\<close> gives it (no number prints as white space
  only): a whole number as its numeral.
\<close>

theorem url_written_before_request:
  "effects (fst (load_prepare st page)) =
     effects st @ [ReplaceState (location_pathname st) (buildQuery st (page_request st page))]
   \<and> location_search (fst (load_prepare st page)) = buildQuery st (page_request st page)
   \<and> take (length (effects st) + 2) (effects (loadVerificationEntries st page outcome)) =
       effects st @
       [ReplaceState (location_pathname st) (buildQuery st (page_request st page)),
        Fetch ''GET'' ''/verification/api/verifications-control/''
          (Encoded (snd (load_prepare st page)))]
   \<and> obj_get (page_request st page) k =
       (case merged_filters st page k of
          Some v \<Rightarrow> if is_empty_value v then None else Some v
        | None \<Rightarrow> None)
   \<and> usp_get (buildQuery st (page_request st page)) k =
       (case merged_filters st page k of
          Some v \<Rightarrow> if keeps v then Some (js_String v) else usp_get (company_part st) k
        | None \<Rightarrow> usp_get (company_part st) k)
   \<and> usp_get (buildQuery st (page_request st page)) ''page'' =
       (if js_trim page = [] then None else Some page)
   \<and> usp_get (buildQuery st (page_request st (show_int n))) ''page'' = Some (show_int n)"
  using load_first_effects[of st page outcome] load_prepare_effects[of st page]
    load_prepare_search[of st page] page_request_lookup[of st page k] query_page[of st st page]
    query_of_merged[of st st page k] query_page_whole[of st st n]
  by (simp add: obj_get_def usp_get_def split: option.splits)

text \<open>
  The theorem on the sample page. Loading page 2 leaves in the address the company id,
  the city of the form (not the one of the address), the date, the page and the limit;
  the empty date and the unknown parameter of the address are gone. A start-up whose
  address names no number as its page, or a number too large for plain digits, writes
  \<open>NaN\<close> or the exponent form.
\<close>

theorem url_written_before_request_witness:
  "location_search (fst (load_prepare sample_list_page ''2'')) =
     [(''company_id'', ''7''), (''city_id'', ''5''), (''date_from'', ''2024-01-01''),
      (''page'', ''2''), (''limit'', ''50'')]
   \<and> usp_get (buildQuery sample_list_page (page_request sample_list_page ''NaN'')) ''page'' =
       Some ''NaN''
   \<and> usp_get (buildQuery sample_list_page (page_request sample_list_page ''1e+21'')) ''page'' =
       Some ''1e+21''"
proof -
  have t: "js_trim ''NaN'' \<noteq> []" "js_trim ''1e+21'' \<noteq> []"
    by (simp_all add: js_trim_def is_ws_def)
  have a: "location_search (fst (load_prepare sample_list_page ''2'')) =
     [(''company_id'', ''7''), (''city_id'', ''5''), (''date_from'', ''2024-01-01''),
      (''page'', ''2''), (''limit'', ''50'')]"
    using url_written_before_request[of sample_list_page "''2''" NetworkFailure "''page''" 2]
    by (simp add: sample_request_query)
  have b: "usp_get (buildQuery sample_list_page (page_request sample_list_page ''NaN'')) ''page'' =
       Some ''NaN''"
    using url_written_before_request[of sample_list_page "''NaN''" NetworkFailure "''limit''" 2] t
    by simp
  have c: "usp_get (buildQuery sample_list_page (page_request sample_list_page ''1e+21'')) ''page'' =
       Some ''1e+21''"
    using url_written_before_request[of sample_list_page "''1e+21''" NetworkFailure "''limit''" 2] t
    by simp
  show ?thesis using a b c by simp
qed

subsection \<open>A single page\<close>

text \<open>
  Claim C4, as amended. On the verification list, 0 or 1 pages give no items at all: the
  pagination block is emptied. The appeals list has no such case: with 0 pages it renders
  the four boundary links, with 1 page the boundary links around the link of page 1.
\<close>

theorem single_page_pagination:
  "(totalPages = 0 \<or> totalPages = 1 \<longrightarrow>
      pagination_items page totalPages = []
      \<and> pagination_block (renderPagination st page totalPages) =
          map_option (\<lambda>_. Items []) (pagination_block st))
   \<and> appeals_pagination_items cur 0 =
       [Li (InnerIcon SkipStart) 1 (cur \<le> 1) False,
        Li (InnerIcon ArrowLeftCircle) (cur - 1) (cur \<le> 1) False,
        Li (InnerIcon ArrowRightCircle) (cur + 1) (cur \<ge> 0) False,
        Li (InnerIcon SkipEnd) 0 (cur \<ge> 0) False]
   \<and> appeals_pagination_items cur 1 =
       [Li (InnerIcon SkipStart) 1 (cur \<le> 1) False,
        Li (InnerIcon ArrowLeftCircle) (cur - 1) (cur \<le> 1) False,
        Li (InnerPage 1) 1 False (1 = cur),
        Li (InnerIcon ArrowRightCircle) (cur + 1) (cur \<ge> 1) False,
        Li (InnerIcon SkipEnd) 1 (cur \<ge> 1) False]"
  by (auto simp: pagination_items_def renderPagination_def appeals_pagination_items_def
      appeals_loop_body_def makeLi_def upto_small split: option.splits)

theorem single_page_pagination_witness:
  "pagination_items 1 1 = []
   \<and> pagination_block (renderPagination sample_list_page 1 1) = Some (Items [])"
  using single_page_pagination[of 1 1 sample_list_page 1]
  by (simp add: sample_list_page_def)

text \<open>
  The claim as it was stated fails on the appeals list: page 1 of 1 renders five links.
\<close>

theorem appeals_single_page_has_links:
  "filter is_li_link (appeals_pagination_items 1 1) =
     [Li (InnerIcon SkipStart) 1 True False,
      Li (InnerIcon ArrowLeftCircle) 0 True False,
      Li (InnerPage 1) 1 False True,
      Li (InnerIcon ArrowRightCircle) 2 True False,
      Li (InnerIcon SkipEnd) 1 True False]"
  by (simp add: appeals_pagination_items_def appeals_loop_body_def makeLi_def upto_small)

subsection \<open>Page 5 of 10\<close>

text \<open>
  Claim C5. On the verification list, \<open>renderPagination\<close> for page 5 of 10, with the
  window radius 2, writes into the pagination block the numbered links 1, 3, 4, 5, 6, 7,
  10, one ellipsis between 1 and 3 and one between 7 and 10; the bar starts with the
  first and previous links and ends with the next and last links. A page without the
  block gets nothing rendered.
\<close>

theorem pagination_5_of_10:
  "pagination_block (renderPagination st 5 10) =
     map_option
       (\<lambda>_. Items
          [PageItem 1 (Some SkipStart) False False,
           PageItem 4 (Some ArrowLeftCircle) False False,
           PageItem 1 None False False,
           EllipsisItem,
           PageItem 3 None False False,
           PageItem 4 None False False,
           PageItem 5 None True False,
           PageItem 6 None False False,
           PageItem 7 None False False,
           EllipsisItem,
           PageItem 10 None False False,
           PageItem 6 (Some ArrowRightCircle) False False,
           PageItem 10 (Some SkipEnd) False False])
       (pagination_block st)
   \<and> pagination_items 5 10 =
       [PageItem 1 (Some SkipStart) False False,
        PageItem 4 (Some ArrowLeftCircle) False False,
        PageItem 1 None False False,
        EllipsisItem,
        PageItem 3 None False False,
        PageItem 4 None False False,
        PageItem 5 None True False,
        PageItem 6 None False False,
        PageItem 7 None False False,
        EllipsisItem,
        PageItem 10 None False False,
        PageItem 6 (Some ArrowRightCircle) False False,
        PageItem 10 (Some SkipEnd) False False]
   \<and> map data_page (filter is_numbered (pagination_items 5 10)) = [1, 3, 4, 5, 6, 7, 10]
   \<and> win = 2"
proof -
  have items: "pagination_items 5 10 =
       [PageItem 1 (Some SkipStart) False False,
        PageItem 4 (Some ArrowLeftCircle) False False,
        PageItem 1 None False False,
        EllipsisItem,
        PageItem 3 None False False,
        PageItem 4 None False False,
        PageItem 5 None True False,
        PageItem 6 None False False,
        PageItem 7 None False False,
        EllipsisItem,
        PageItem 10 None False False,
        PageItem 6 (Some ArrowRightCircle) False False,
        PageItem 10 (Some SkipEnd) False False]"
    by (simp add: pagination_items_def upto_1_10 page_loop_body_def makePageItem_def win_def)
  have block: "pagination_block (renderPagination st 5 10) =
      map_option (\<lambda>_. Items (pagination_items 5 10)) (pagination_block st)"
    by (simp add: renderPagination_def split: option.splits)
  show ?thesis unfolding block unfolding items by (simp add: win_def)
qed

text \<open>
  The same bar is drawn by a successful load whose envelope names page 5 of 10, whatever
  page was asked for.
\<close>

lemma load_draws_page_5_of_10:
  "pagination_block
     (load_render sample_list_page page
        (Envelope (empty_envelope\<lparr>env_page := Some 5, env_total_pages := Some 10\<rparr>))) =
   Some (Items (pagination_items 5 10))"
  by (simp add: load_render_def Let_def empty_envelope_def or_default_def
      renderPagination_any_def renderPagination_def renderVerificationTable_def renderStats_def
      sample_list_page_def)

subsection \<open>Clicks on page links\<close>

text \<open>
  Claim C6, as amended. On the appeals list a click on a link marked disabled, or on the
  link of the page that is current, changes nothing and asks the server nothing; a click
  on any other link makes its page the current one and calls \<open>fetchAppeals\<close> for exactly
  that page. On the verification list a click on a link that is not marked disabled runs
  \<open>loadVerificationEntries\<close> with the link's page: the request that follows the address
  update carries that page. The ellipsis items of both lists have no handler.
\<close>

theorem page_link_clicks:
  "(dis \<or> pg = currentPage ast \<longrightarrow> li_click ast (Li inn pg dis act) aout = ast)
   \<and> (\<not> dis \<and> pg \<noteq> currentPage ast \<longrightarrow>
        currentPage (li_click ast (Li inn pg dis act) aout) = pg
        \<and> appeals_effects (li_click ast (Li inn pg dis act) aout) =
            appeals_effects ast @
            [FetchAppeals pg pageSize
               (if status_filter_value ast = [] then None else Some (status_filter_value ast))])
   \<and> li_click ast EllipsisLi aout = ast
   \<and> (\<not> d \<longrightarrow>
        page_link_click st (PageItem p lbl a d) outcome =
          loadVerificationEntries st (show_int p) outcome
        \<and> take (length (effects st) + 2) (effects (page_link_click st (PageItem p lbl a d) outcome)) =
            effects st @
            [ReplaceState (location_pathname st) (buildQuery st (page_request st (show_int p))),
             Fetch ''GET'' ''/verification/api/verifications-control/''
               (Encoded (snd (load_prepare st (show_int p))))]
        \<and> usp_get (snd (load_prepare st (show_int p))) ''page'' = Some (show_int p))
   \<and> page_link_click st EllipsisItem outcome = st"
proof -
  have q: "usp_get (snd (load_prepare st (show_int p))) ''page'' = Some (show_int p)"
    using query_page_whole[of "pushURLState st (page_request st (show_int p))" st p]
    by (simp add: load_prepare_def Let_def usp_get_def)
  have ap: "\<not> dis \<and> pg \<noteq> currentPage ast \<longrightarrow>
        currentPage (li_click ast (Li inn pg dis act) aout) = pg
        \<and> appeals_effects (li_click ast (Li inn pg dis act) aout) =
            appeals_effects ast @
            [FetchAppeals pg pageSize
               (if status_filter_value ast = [] then None else Some (status_filter_value ast))]"
    by (cases aout) (simp_all add: li_click_def loadAppeals_def Let_def)
  have noop: "dis \<or> pg = currentPage ast \<longrightarrow> li_click ast (Li inn pg dis act) aout = ast"
    by (auto simp: li_click_def)
  show ?thesis
    using q ap noop load_first_effects[of st "show_int p" outcome]
    by (simp add: page_link_click_def li_click_def)
qed

text \<open>
  The theorem on the sample pages: from page 2 of the appeals list a click on the link
  of page 3 asks for page 3, and so does a click on the enabled link of page 3 of the
  verification list.
\<close>

theorem page_link_clicks_witness:
  "appeals_effects (li_click sample_appeals_page (Li (InnerPage 3) 3 False False)
      (Fulfilled \<lparr>data_items = [33], data_total_pages = 3\<rparr>)) = [FetchAppeals 3 30 None]
   \<and> li_click sample_appeals_page (Li (InnerIcon SkipEnd) 2 True False)
      (Fulfilled \<lparr>data_items = [33], data_total_pages = 2\<rparr>) = sample_appeals_page
   \<and> usp_get (snd (load_prepare sample_list_page ''3'')) ''page'' = Some ''3''"
proof -
  have c: "currentPage sample_appeals_page = 2" "status_filter_value sample_appeals_page = []"
    "appeals_effects sample_appeals_page = []"
    by (simp_all add: sample_appeals_page_def)
  have s: "show_int 3 = ''3''" by code_simp
  show ?thesis
    using page_link_clicks[of False 3 sample_appeals_page "InnerPage 3" False
        "Fulfilled \<lparr>data_items = [33], data_total_pages = 3\<rparr>" False sample_list_page 3 None
        False NetworkFailure]
      page_link_clicks[of True 2 sample_appeals_page "InnerIcon SkipEnd" False
        "Fulfilled \<lparr>data_items = [33], data_total_pages = 2\<rparr>" False sample_list_page 3 None
        False NetworkFailure]
    by (simp add: c s pageSize_def)
qed

text \<open>
  The claim as it was stated fails on the appeals list: the link of the current page is
  rendered without the disabled mark, and a click on it loads nothing.
\<close>

theorem appeals_current_page_link_is_inert:
  "Li (InnerPage 2) 2 False True
     \<in> set (appeals_pagination_items (currentPage sample_appeals_page) 3)
   \<and> \<not> li_disabled (Li (InnerPage 2) 2 False True)
   \<and> appeals_effects (li_click sample_appeals_page (Li (InnerPage 2) 2 False True)
        (Fulfilled \<lparr>data_items = [31, 32], data_total_pages = 3\<rparr>)) = []"
  by (simp add: sample_appeals_page_def appeals_pagination_items_def appeals_loop_body_def
      makeLi_def upto_small li_click_def)

text \<open>
  The handler of the verification list does not read the disabled mark: it is bound to
  every link that has \<open>data-page\<close>.
\<close>

lemma page_link_click_any_link:
  "page_link_click st (PageItem p lbl a d) outcome =
     loadVerificationEntries st (show_int p) outcome"
  by (simp add: page_link_click_def)

subsection \<open>Rendering no items\<close>

text \<open>
  Claim C7, as amended. Rendering the verification table with no items writes exactly one
  row into the table body, the placeholder row, when the page has a table body; so does
  a successful load whose envelope has no items, or whose body is a falsy JSON value. The
  appeals list has no placeholder: a load that returns no items leaves its table body
  with zero rows.
\<close>

theorem empty_items_rendering:
  "map_option (map is_placeholder) (table_body (renderVerificationTable st [])) =
     map_option (\<lambda>_. [True]) (table_body st)
   \<and> (res_ok status \<and> (env_items env = None \<or> env_items env = Some []) \<longrightarrow>
        map_option (map is_placeholder)
          (table_body (loadVerificationEntries st page
             (Responded status statusText (Envelope env)))) =
          map_option (\<lambda>_. [True]) (table_body st))
   \<and> (res_ok status \<longrightarrow>
        map_option (map is_placeholder)
          (table_body (loadVerificationEntries st page (Responded status statusText FalsyJson))) =
          map_option (\<lambda>_. [True]) (table_body st))
   \<and> appeals_body (loadAppeals ast (Fulfilled \<lparr>data_items = [], data_total_pages = tp\<rparr>)) = []"
proof -
  have one: "table_body (renderVerificationTable s []) =
      map_option (\<lambda>_. [PlaceholderRow 20]) (table_body s)" for s
    by (simp add: renderVerificationTable_def split: option.splits)
  obtain st1 q where lp: "load_prepare st page = (st1, q)" by (cases "load_prepare st page")
  have t1: "table_body st1 = table_body st"
    using load_prepare_display[of st page] lp by (simp add: display_def)
  have two: "table_body (loadVerificationEntries st page (Responded status statusText (Envelope env))) =
      map_option (\<lambda>_. [PlaceholderRow 20]) (table_body st)"
    if "res_ok status" "env_items env = None \<or> env_items env = Some []"
  proof -
    have i: "or_default (env_items env) [] = []" using that(2) by (auto simp: or_default_def)
    show ?thesis
      using that(1) t1
      by (simp add: loadVerificationEntries_def lp safeFetch_def Let_def emit_def
          load_render_def i renderPagination_any_def renderPagination_def
          renderVerificationTable_def renderStats_def
          split: option.splits sum.splits)
  qed
  have falsy: "table_body (loadVerificationEntries st page (Responded status statusText FalsyJson)) =
      map_option (\<lambda>_. [PlaceholderRow 20]) (table_body st)"
    if "res_ok status"
    using that t1
    by (simp add: loadVerificationEntries_def lp safeFetch_def Let_def emit_def
        load_render_def empty_envelope_def or_default_def renderPagination_any_def
        renderPagination_def renderVerificationTable_def renderStats_def
        split: option.splits sum.splits)
  have three: "appeals_body (loadAppeals ast (Fulfilled \<lparr>data_items = [], data_total_pages = tp\<rparr>)) = []"
    by (simp add: loadAppeals_def Let_def)
  have p: "map_option (map is_placeholder) (map_option (\<lambda>_. [PlaceholderRow 20]) b) =
      map_option (\<lambda>_. [True]) b" for b :: "row list option"
    by (cases b) simp_all
  show ?thesis using one[of st] two falsy three p[of "table_body st"] by simp
qed

theorem empty_items_rendering_witness:
  "res_ok 200
   \<and> map_option (map is_placeholder)
       (table_body (loadVerificationEntries sample_list_page ''1''
          (Responded 200 ''OK'' (Envelope empty_envelope)))) = Some [True]"
proof -
  have r: "res_ok 200" by (simp add: res_ok_def)
  have e: "env_items empty_envelope = None" by (simp add: empty_envelope_def)
  show ?thesis
    using empty_items_rendering[of sample_list_page 200 empty_envelope "''1''" "''OK''"] r e
    by (simp add: sample_list_page_def)
qed

text \<open>
  The claim as it was stated fails on the appeals list: after a load that returns no
  appeals the table body is empty.
\<close>

theorem appeals_empty_page_has_no_row:
  "appeals_body (loadAppeals sample_appeals_page
     (Fulfilled \<lparr>data_items = [], data_total_pages = 1\<rparr>)) = []
   \<and> length (appeals_body (loadAppeals sample_appeals_page
        (Fulfilled \<lparr>data_items = [], data_total_pages = 1\<rparr>))) \<noteq> 1"
  by (simp add: loadAppeals_def Let_def sample_appeals_page_def)

text \<open>
  The cell of the placeholder row is written with \<open>colspan="20"\<close>, while the row of an
  entry has 22 cells: the placeholder covers fewer columns than a row of entries does.
\<close>

lemma placeholder_row_columns:
  "table_body (renderVerificationTable st []) =
     map_option (\<lambda>_. [PlaceholderRow 20]) (table_body st)"
  "row_columns (PlaceholderRow 20) = 20"
  "row_columns (render_row st e) = 22"
  by (simp_all add: renderVerificationTable_def render_row_def split: option.splits)

subsection \<open>Deleting a row\<close>

text \<open>
  Claim C8, as amended. When the deletion of a verification entry is confirmed and the
  server reports success, the handler asks, sends the DELETE request and announces the
  deletion, and nothing else leaves the script: no list is fetched. The row of the button
  leaves the table, the other rows stay; the total counter and the counter of the row's
  result are decremented through \<open>dec_counter\<close>, the other counter and the pagination
  block stay. A counter that shows a number above 0 shows one less afterwards, any other
  number is left as it is, so no counter goes below 0. Deleting an appeal works
  otherwise: after the server's success the modal is hidden and the whole list is fetched
  again through \<open>loadAppeals\<close>.
\<close>

theorem delete_entry_in_place:
  assumes "row_at st i = Some (EntryRow vid cid ok)"
    and "vid \<noteq> []" and "cid \<noteq> []"
    and "res_ok status" and "reported_error body = None"
  shows
    "effects (onDeleteVerification st i True (Responded status statusText body)) =
       effects st @
       [Confirm vid,
        Fetch ''DELETE'' ''/verification/api/verifications-control/delete/''
          (Pasted [(''company_id'', cid), (''verification_entry_id'', vid)]),
        Alert EntryDeleted]
     \<and> table_body (onDeleteVerification st i True (Responded status statusText body)) =
         map_option (\<lambda>rows. take i rows @ drop (Suc i) rows) (table_body st)
     \<and> total_entries_text (onDeleteVerification st i True (Responded status statusText body)) =
         dec_counter (total_entries_text st)
     \<and> verified_entry_text (onDeleteVerification st i True (Responded status statusText body)) =
         (if ok then dec_counter (verified_entry_text st) else verified_entry_text st)
     \<and> not_verified_entry_text
         (onDeleteVerification st i True (Responded status statusText body)) =
         (if ok then not_verified_entry_text st else dec_counter (not_verified_entry_text st))
     \<and> pagination_block (onDeleteVerification st i True (Responded status statusText body)) =
         pagination_block st
     \<and> (counter_value el = Some n \<longrightarrow>
          counter_value (dec_counter el) = Some (if n > 0 then n - 1 else n))
     \<and> appeals_effects (confirm_delete_click ast appeal_id (Fulfilled u) aout) =
         appeals_effects ast @
         [DeleteAppeal appeal_id, ModalHide,
          FetchAppeals (currentPage ast) pageSize
            (if status_filter_value ast = [] then None else Some (status_filter_value ast))]"
proof -
  have del: "onDeleteVerification st i True (Responded status statusText body) =
      (let st2 = emit [Fetch ''DELETE'' ''/verification/api/verifications-control/delete/''
                         (Pasted [(''company_id'', cid), (''verification_entry_id'', vid)])]
                   (emit [Confirm vid] st);
           st3 = remove_row i (emit [Alert EntryDeleted] st2);
           st4 = st3\<lparr>total_entries_text := dec_counter (total_entries_text st3)\<rparr>
       in if ok then st4\<lparr>verified_entry_text := dec_counter (verified_entry_text st4)\<rparr>
          else st4\<lparr>not_verified_entry_text := dec_counter (not_verified_entry_text st4)\<rparr>)"
    using assms by (simp add: onDeleteVerification_def safeFetch_def Let_def)
  have ap: "appeals_effects (confirm_delete_click ast appeal_id (Fulfilled u) aout) =
         appeals_effects ast @
         [DeleteAppeal appeal_id, ModalHide,
          FetchAppeals (currentPage ast) pageSize
            (if status_filter_value ast = [] then None else Some (status_filter_value ast))]"
    by (cases aout) (simp_all add: confirm_delete_click_def loadAppeals_def Let_def)
  show ?thesis
    unfolding del using ap counter_value_dec[of el n]
    by (simp add: Let_def emit_def remove_row_def)
qed

text \<open>
  The theorem on the sample page: deleting the first row, whose meter passed, leaves the
  second row and the counters 1, 0 and 1.
\<close>

theorem delete_entry_in_place_witness:
  "row_at sample_list_page 0 = Some (EntryRow ''11'' ''7'' True)
   \<and> res_ok 200 \<and> reported_error NoJson = None
   \<and> table_body (onDeleteVerification sample_list_page 0 True (Responded 200 ''OK'' NoJson)) =
       Some [EntryRow ''12'' ''7'' False]
   \<and> total_entries_text (onDeleteVerification sample_list_page 0 True
        (Responded 200 ''OK'' NoJson)) = Some ''1''
   \<and> verified_entry_text (onDeleteVerification sample_list_page 0 True
        (Responded 200 ''OK'' NoJson)) = Some ''0''
   \<and> not_verified_entry_text (onDeleteVerification sample_list_page 0 True
        (Responded 200 ''OK'' NoJson)) = Some ''1''
   \<and> effects (onDeleteVerification sample_list_page 0 True (Responded 200 ''OK'' NoJson)) =
       [Confirm ''11'',
        Fetch ''DELETE'' ''/verification/api/verifications-control/delete/''
          (Pasted [(''company_id'', ''7''), (''verification_entry_id'', ''11'')]),
        Alert EntryDeleted]"
proof -
  have r: "row_at sample_list_page 0 = Some (EntryRow ''11'' ''7'' True)"
    by (simp add: row_at_def sample_list_page_def)
  have k: "res_ok 200" by (simp add: res_ok_def)
  have e: "reported_error NoJson = None" by (simp add: reported_error_def)
  have d: "dec_counter (Some ''2'') = Some ''1''" "dec_counter (Some ''1'') = Some ''0''"
    by code_simp+
  have s: "table_body sample_list_page = Some [EntryRow ''11'' ''7'' True, EntryRow ''12'' ''7'' False]"
    "total_entries_text sample_list_page = Some ''2''"
    "verified_entry_text sample_list_page = Some ''1''"
    "not_verified_entry_text sample_list_page = Some ''1''"
    "effects sample_list_page = []"
    by (simp_all add: sample_list_page_def)
  show ?thesis
    using delete_entry_in_place[OF r _ _ k e, of "''OK''" None 0 sample_appeals_page 1 "()"
        "Rejected []"] r k e
    by (simp add: s d)
qed

text \<open>
  The claim as it was stated fails for appeals: a successful deletion is followed by a
  fetch of the whole list.
\<close>

theorem appeal_delete_refetches_list:
  "appeals_effects (confirm_delete_click sample_appeals_page 31 (Fulfilled ())
     (Fulfilled \<lparr>data_items = [32], data_total_pages = 1\<rparr>)) =
     [DeleteAppeal 31, ModalHide, FetchAppeals 2 30 None]"
  by (simp add: confirm_delete_click_def loadAppeals_def Let_def sample_appeals_page_def
      pageSize_def)

subsection \<open>Overlapping act-number lookups\<close>

text \<open>
  Claim C9, as amended. A lookup that issues its request has recorded the key
  \<open>seriesId:actNumber\<close> in \<open>lastActQueryKey\<close> by then; two keys are equal exactly when the
  series and the number are. When a response with a status 200..299 arrives, the page is
  left as it is unless \<open>lastActQueryKey\<close> still equals the key of that lookup, and with
  the key still in place a found act is written into the form. Nothing but a lookup that
  issues its request writes \<open>lastActQueryKey\<close>: after any sequence of lookups, answers
  and typing it holds the key of the last lookup that issued a request. Hence the
  successful response to an earlier lookup changes nothing on the page whenever the last
  lookup to have issued its request by then was for another series or act number; in
  particular when such a lookup has issued its request and no lookup has issued one
  since.
\<close>

theorem stale_act_response_ignored:
  "(queryActNumber_start st = (st1, Some key1) \<longrightarrow>
      lastActQueryKey st1 = Some key1
      \<and> key1 = or_default (series_value st) [] @ '':'' @
                 show_nat (nat_of_digits (strip_zeros (digits_only (act_value st))))
      \<and> order_effects st1 = order_effects st @
           [GetActNumber
              [(''company_id'', js_String (companyId st)),
               (''series_id'', or_default (series_value st) []),
               (''act_number'',
                show_nat (nat_of_digits (strip_zeros (digits_only (act_value st)))))]])
   \<and> (s @ '':'' @ show_nat m = s' @ '':'' @ show_nat n \<longleftrightarrow> s = s' \<and> m = n)
   \<and> (res_ok status \<and> lastActQueryKey pg \<noteq> Some key \<longrightarrow>
        queryActNumber_settle pg key (Responded status statusText body) = pg)
   \<and> (res_ok status \<and> lastActQueryKey pg = Some key \<and> found d \<noteq> Some False \<longrightarrow>
        queryActNumber_settle pg key (Responded status statusText (ActJson d)) =
          renderActPhotos (or_default (photos d) []) (fill_fields d pg))
   \<and> snd (queryActNumber_start st) = lookup_key (series_value st) (act_value st)
   \<and> lastActQueryKey (order_run st es) = last_issued (lastActQueryKey st) es
   \<and> (res_ok status \<and> last_issued (lastActQueryKey st) es \<noteq> Some key \<longrightarrow>
        order_run st (es @ [Answer key (Responded status statusText body)]) = order_run st es)
   \<and> (res_ok status \<and> lookup_key ser act = Some key2 \<and> key2 \<noteq> key
        \<and> list_all (\<lambda>e. \<not> issues e) rest \<longrightarrow>
        order_run st (es @ Lookup ser act # rest @ [Answer key (Responded status statusText body)]) =
          order_run st (es @ Lookup ser act # rest))"
proof -
  have start: "lastActQueryKey b = Some k
      \<and> k = or_default (series_value a) [] @ '':'' @
               show_nat (nat_of_digits (strip_zeros (digits_only (act_value a))))
      \<and> order_effects b = order_effects a @
           [GetActNumber
              [(''company_id'', js_String (companyId a)),
               (''series_id'', or_default (series_value a) []),
               (''act_number'',
                show_nat (nat_of_digits (strip_zeros (digits_only (act_value a)))))]]"
    if "queryActNumber_start a = (b, Some k)" for a b k
    using that
    by (auto simp: queryActNumber_start_def Let_def oemit_def renderActPhotos_def
        split: if_splits)
  have stale: "queryActNumber_settle p k (Responded status statusText body) = p"
    if "res_ok status" "lastActQueryKey p \<noteq> Some k" for p k
    using that by (simp add: queryActNumber_settle_def)
  have fresh: "queryActNumber_settle pg key (Responded status statusText (ActJson d)) =
      renderActPhotos (or_default (photos d) []) (fill_fields d pg)"
    if "res_ok status" "lastActQueryKey pg = Some key" "found d \<noteq> Some False"
    using that by (simp add: queryActNumber_settle_def)
  have answered: "order_run p (evs @ [Answer key (Responded status statusText body)]) =
      order_run p evs"
    if "res_ok status" "last_issued (lastActQueryKey p) evs \<noteq> Some key" for p evs
  proof -
    have "lastActQueryKey (order_run p evs) \<noteq> Some key"
      using that(2) by (simp add: run_key)
    then show ?thesis using stale[OF that(1)] by (simp add: run_append)
  qed
  have later: "order_run st (es @ Lookup ser act # rest @ [Answer key (Responded status statusText body)]) =
      order_run st (es @ Lookup ser act # rest)"
    if "res_ok status" "lookup_key ser act = Some key2" "key2 \<noteq> key"
      "list_all (\<lambda>e. \<not> issues e) rest"
  proof -
    have "last_issued (lastActQueryKey st) (es @ Lookup ser act # rest) = Some key2"
      using that(2) last_issued_quiet[OF that(4)] by (simp add: last_issued_append)
    then have "last_issued (lastActQueryKey st) (es @ Lookup ser act # rest) \<noteq> Some key"
      using that(3) by simp
    from answered[OF that(1) this] show ?thesis by simp
  qed
  show ?thesis
    using start[of st st1 key1] stale[of pg key] fresh answered[of st es] later
      query_key_inject[of s m s' n] start_issues[of st] run_key[of st es]
    by simp
qed

text \<open>
  The theorem on the sample page. A lookup for series 3, act 15 records the key
  \<open>3:15\<close>, and an answer that arrives then writes the street of the act found into the
  form. When a lookup for act 16 has issued its request in between, the same answer
  changes nothing.
\<close>

theorem stale_act_response_ignored_witness:
  "res_ok 200
   \<and> queryActNumber_start sample_order_page =
       (fst (queryActNumber_start sample_order_page), Some ''3:15'')
   \<and> lastActQueryKey (fst (queryActNumber_start sample_order_page)) = Some ''3:15''
   \<and> found sample_act \<noteq> Some False
   \<and> elements
        (queryActNumber_settle (fst (queryActNumber_start sample_order_page)) ''3:15''
           (Responded 200 ''OK'' (ActJson sample_act))) ''address'' = Some ''New street 2''
   \<and> lookup_key (Some ''3'') ''16'' = Some ''3:16''
   \<and> ''3:16'' \<noteq> ''3:15''
   \<and> list_all (\<lambda>e. \<not> issues e) [Typed ''client_full_name'' ''B'']
   \<and> elements
        (order_run sample_order_page
           [Lookup (Some ''3'') ''0015'', Lookup (Some ''3'') ''16'',
            Typed ''client_full_name'' ''B'',
            Answer ''3:15'' (Responded 200 ''OK'' (ActJson sample_act))]) ''address'' =
       Some ''Old street 1''"
proof -
  let ?p1 = "fst (queryActNumber_start sample_order_page)"
  let ?ok = "Responded 200 ''OK'' (ActJson sample_act)"
  note inst = stale_act_response_ignored[of sample_order_page ?p1 "''3:15''" "''3''" 15
      "''3''" 15 200 ?p1 "''3:15''" "''OK''" "ActJson sample_act" sample_act
      "[Lookup (Some ''3'') ''0015'']" "Some ''3''" "''16''" "''3:16''"
      "[Typed ''client_full_name'' ''B'']"]
  have r: "res_ok 200" by (simp add: res_ok_def)
  have a: "queryActNumber_start sample_order_page = (?p1, Some ''3:15'')"
    by (simp add: sample_lookup)
  have f: "found sample_act \<noteq> Some False" by (simp add: sample_act_def)
  have k2: "lookup_key (Some ''3'') ''16'' = Some ''3:16''" by (simp add: sample_keys)
  have ne: "''3:16'' \<noteq> ''3:15''" by simp
  have q: "list_all (\<lambda>e. \<not> issues e) [Typed ''client_full_name'' ''B'']" by simp
  have key: "lastActQueryKey ?p1 = Some ''3:15''"
    using inst a by blast
  have "queryActNumber_settle ?p1 ''3:15'' ?ok =
      renderActPhotos (or_default (photos sample_act) []) (fill_fields sample_act ?p1)"
    using inst r key f by blast
  moreover have "elements (fill_fields sample_act ?p1) ''address'' = Some ''New street 2''"
    by (rule fill_fields_address[where old = "''Old street 1''"])
      (simp_all add: sample_act_def start_elements sample_order_page_def)
  ultimately have fresh: "elements (queryActNumber_settle ?p1 ''3:15'' ?ok) ''address'' =
      Some ''New street 2''"
    by (simp add: renderActPhotos_def)
  have "order_run sample_order_page
          ([Lookup (Some ''3'') ''0015''] @ Lookup (Some ''3'') ''16'' #
           [Typed ''client_full_name'' ''B''] @ [Answer ''3:15'' ?ok]) =
        order_run sample_order_page
          ([Lookup (Some ''3'') ''0015''] @ Lookup (Some ''3'') ''16'' #
           [Typed ''client_full_name'' ''B''])"
    using inst r k2 ne q by blast
  then have "elements (order_run sample_order_page
           [Lookup (Some ''3'') ''0015'', Lookup (Some ''3'') ''16'',
            Typed ''client_full_name'' ''B'', Answer ''3:15'' ?ok]) =
        elements (order_run sample_order_page
           [Lookup (Some ''3'') ''0015'', Lookup (Some ''3'') ''16'',
            Typed ''client_full_name'' ''B''])"
    by simp
  then have stale: "elements (order_run sample_order_page
           [Lookup (Some ''3'') ''0015'', Lookup (Some ''3'') ''16'',
            Typed ''client_full_name'' ''B'', Answer ''3:15'' ?ok]) ''address'' =
        Some ''Old street 1''"
    by (simp add: start_elements sample_order_page_def)
  show ?thesis using r a key f fresh k2 ne q stale by simp
qed

text \<open>
  The claim as it was stated fails when the second lookup has the key of the first: both
  issue their requests, and the answer to the first still overwrites the address field.
\<close>

theorem same_key_response_overwrites:
  "snd (queryActNumber_start sample_order_page) = Some ''3:15''
   \<and> snd (queryActNumber_start (fst (queryActNumber_start sample_order_page))) = Some ''3:15''
   \<and> elements (fst (queryActNumber_start (fst (queryActNumber_start sample_order_page))))
        ''address'' = Some ''Old street 1''
   \<and> elements
        (queryActNumber_settle
           (fst (queryActNumber_start (fst (queryActNumber_start sample_order_page))))
           ''3:15'' (Responded 200 ''OK'' (ActJson sample_act))) ''address'' = Some ''New street 2''"
proof -
  let ?g = "GetActNumber [(''company_id'', ''7''), (''series_id'', ''3''), (''act_number'', ''15'')]"
  let ?p2 = "sample_order_page\<lparr>lastActQueryKey := Some ''3:15'', order_effects := [?g, ?g]\<rparr>"
  have p2: "fst (queryActNumber_start (fst (queryActNumber_start sample_order_page))) = ?p2"
    by (simp add: sample_lookup sample_repeated_lookup)
  have k1: "snd (queryActNumber_start sample_order_page) = Some ''3:15''"
    by (simp add: sample_lookup)
  have k2: "snd (queryActNumber_start (fst (queryActNumber_start sample_order_page))) = Some ''3:15''"
    by (simp add: sample_lookup sample_repeated_lookup)
  have before: "elements ?p2 ''address'' = Some ''Old street 1''"
    by (simp add: sample_order_page_def)
  have after: "elements (queryActNumber_settle ?p2 ''3:15'' (Responded 200 ''OK'' (ActJson sample_act)))
      ''address'' = Some ''New street 2''"
    by (simp add: queryActNumber_settle_def res_ok_def sample_act_def fill_fields_def setIf_def
        set_city_def nonempty_def renderActPhotos_def Let_def sample_order_page_def)
  show ?thesis unfolding p2 using k1 k2[unfolded p2] before after
    by (simp add: sample_lookup)
qed

text \<open>
  A later lookup for the series and number of the first lets the answer to the first
  through again, although a lookup for another number has issued its request in between.
\<close>

lemma repeated_lookup_lets_first_answer_through:
  "last_issued None
     [Lookup (Some ''3'') ''0015'', Lookup (Some ''3'') ''16'', Lookup (Some ''3'') ''0015''] =
     Some ''3:15''"
  "elements
     (order_run sample_order_page
        [Lookup (Some ''3'') ''0015'', Lookup (Some ''3'') ''16'', Lookup (Some ''3'') ''0015'',
         Answer ''3:15'' (Responded 200 ''OK'' (ActJson sample_act))]) ''address'' =
     Some ''New street 2''"
proof -
  let ?es = "[Lookup (Some ''3'') ''0015'', Lookup (Some ''3'') ''16'', Lookup (Some ''3'') ''0015'']"
  let ?p = "order_run sample_order_page ?es"
  show l: "last_issued None ?es = Some ''3:15''"
    by (simp add: sample_keys)
  have k: "lastActQueryKey ?p = Some ''3:15''"
    using run_key[of sample_order_page ?es] l by (simp add: sample_order_page_def)
  have e: "elements ?p = elements sample_order_page"
    by (simp add: start_elements)
  have "order_run sample_order_page (?es @ [Answer ''3:15'' (Responded 200 ''OK'' (ActJson sample_act))]) =
      queryActNumber_settle ?p ''3:15'' (Responded 200 ''OK'' (ActJson sample_act))"
    unfolding run_append by simp
  moreover have "elements (queryActNumber_settle ?p ''3:15'' (Responded 200 ''OK'' (ActJson sample_act)))
      ''address'' = Some ''New street 2''"
    using k e
    by (simp add: queryActNumber_settle_def res_ok_def sample_act_def fill_fields_def setIf_def
        set_city_def nonempty_def renderActPhotos_def Let_def sample_order_page_def)
  ultimately show "elements
     (order_run sample_order_page
        [Lookup (Some ''3'') ''0015'', Lookup (Some ''3'') ''16'', Lookup (Some ''3'') ''0015'',
         Answer ''3:15'' (Responded 200 ''OK'' (ActJson sample_act))]) ''address'' =
     Some ''New street 2''"
    by simp
qed

text \<open>
  The guard stands on the successful path only: a response with a status outside 200..299
  fills the form from the order's prefill whatever \<open>lastActQueryKey\<close> holds.
\<close>

lemma failed_lookup_is_not_guarded:
  "\<not> res_ok status \<Longrightarrow>
   queryActNumber_settle pg queryKey (Responded status statusText body) =
     renderActPhotos [] (fillFromOrderForActNumber pg)"
  by (simp add: queryActNumber_settle_def)

subsection \<open>The act number at submission\<close>

text \<open>
  Claim C10, as amended. A submission whose act number is rejected (no digit is left
  after the leading zeros, or the number is below 1 or above \<open>INT_MAX\<close>) never issues a
  POST request. When the submission passes the steps that come first (none under way,
  the phone empty or complete, the verification-date field on the page and its date not
  after today, the form valid), a rejected act number ends the handler with one alert,
  and an accepted one with the POST request whose payload carries the act number as its
  decimal numeral.
\<close>

theorem submit_act_number_gate:
  "(act_rejected (act_value st) \<longrightarrow>
      filter is_post (order_effects (submit_handler st sub)) = filter is_post (order_effects st))
   \<and> (reaches_act_check st sub \<and> act_rejected (act_value st) \<longrightarrow>
        order_effects (submit_handler st sub) =
          order_effects st @
          [OAlert (case normalized_act (act_value st) of
                     None \<Rightarrow> ActNotPositive
                   | Some k \<Rightarrow> if k < 1 then ActNotPositive else ActTooLarge)])
   \<and> (reaches_act_check st sub \<and> normalized_act (act_value st) = Some n
        \<and> 1 \<le> n \<and> n \<le> INT_MAX \<longrightarrow>
        order_effects (submit_handler st sub) =
          order_effects st @
          [PostOrder
             [(''company_id'', js_String (companyId st)),
              (''order_id'', js_String (orderId sub)),
              (''redirect_to_metrolog_info'',
               if submitter_id sub = Some ''submit-order-and-metrolog'' then ''1'' else ''0'')]
             (build_payload st sub n)])
   \<and> obj_get (entry_data (build_payload st sub n)) ''act_number'' = Some (JStr (show_nat n))"
proof -
  let ?st1 = "if length (phone_unmasked sub) \<le> 2 then st\<lparr>phone_input_value := []\<rparr> else st"
  have el: "elements ?st1 = elements st" by simp
  have reach: "submit_handler st sub =
      (case normalized_act (act_value st) of
         None \<Rightarrow> oemit [OAlert ActNotPositive] ?st1
       | Some k \<Rightarrow>
           if k < 1 then oemit [OAlert ActNotPositive] ?st1
           else if k > INT_MAX then oemit [OAlert ActTooLarge] ?st1
           else oemit [PostOrder
                         [(''company_id'', js_String (companyId st)),
                          (''order_id'', js_String (orderId sub)),
                          (''redirect_to_metrolog_info'',
                           if submitter_id sub = Some ''submit-order-and-metrolog''
                           then ''1'' else ''0'')]
                         (build_payload st sub k)]
                  (?st1\<lparr>isSubmitting := True\<rparr>))"
    if r: "reaches_act_check st sub"
  proof -
    have ns: "\<not> isSubmitting st" and fv: "form_valid sub"
      and ph: "length (phone_unmasked sub) \<le> 2 \<or> phone_complete sub"
      using r by (simp_all add: reaches_act_check_def)
    obtain vdate where vd: "elements st ''verification_date'' = Some vdate"
      and dt: "\<not> (vdate \<noteq> [] \<and> vdate > today sub)"
      using r by (auto simp: reaches_act_check_def split: option.splits)
    have a: "act_value ?st1 = act_value st" "companyId ?st1 = companyId st"
      "build_payload ?st1 sub k = build_payload st sub k" for k
      by (simp_all add: build_payload_phone)
    show ?thesis
      unfolding submit_handler_def Let_def el
      by (simp only: ns ph vd dt fv a option.case if_False if_True simp_thms)
  qed
  have alert: "order_effects (submit_handler st sub) =
      order_effects st @
      [OAlert (case normalized_act (act_value st) of
                 None \<Rightarrow> ActNotPositive
               | Some k \<Rightarrow> if k < 1 then ActNotPositive else ActTooLarge)]"
    if "reaches_act_check st sub" "act_rejected (act_value st)"
    using that(2) unfolding reach[OF that(1)]
    by (auto simp: act_rejected_def oemit_def split: option.splits)
  have post: "order_effects (submit_handler st sub) =
      order_effects st @
      [PostOrder
         [(''company_id'', js_String (companyId st)),
          (''order_id'', js_String (orderId sub)),
          (''redirect_to_metrolog_info'',
           if submitter_id sub = Some ''submit-order-and-metrolog'' then ''1'' else ''0'')]
         (build_payload st sub n)]"
    if "reaches_act_check st sub" "normalized_act (act_value st) = Some n" "1 \<le> n" "n \<le> INT_MAX"
    using that(2-4) unfolding reach[OF that(1)] by (simp add: oemit_def)
  have no_post: "filter is_post (order_effects (submit_handler st sub)) =
      filter is_post (order_effects st)" if rej: "act_rejected (act_value st)"
  proof (cases "reaches_act_check st sub")
    case True
    show ?thesis unfolding alert[OF True rej] by (simp add: is_post_def)
  next
    case False
    have "order_effects (submit_handler st sub) = order_effects st
        \<or> order_effects (submit_handler st sub) = order_effects st @ [OAlert PhoneIncomplete]
        \<or> order_effects (submit_handler st sub) = order_effects st @ [UncaughtTypeError]
        \<or> order_effects (submit_handler st sub) = order_effects st @ [OAlert DateAfterToday]
        \<or> order_effects (submit_handler st sub) = order_effects st @ [ReportValidity]"
    proof (cases "isSubmitting st")
      case True
      then show ?thesis by (simp add: submit_handler_def)
    next
      case ns: False
      show ?thesis
      proof (cases "length (phone_unmasked sub) \<le> 2 \<or> phone_complete sub")
        case ph: False
        show ?thesis using ns ph by (simp add: submit_handler_def Let_def oemit_def)
      next
        case ph: True
        show ?thesis
        proof (cases "elements st ''verification_date''")
          case vd: None
          have "submit_handler st sub = oemit [UncaughtTypeError] ?st1"
            unfolding submit_handler_def Let_def el
            by (simp only: ns ph vd option.case if_False if_True simp_thms)
          then show ?thesis by (simp add: oemit_def)
        next
          case vd: (Some vdate)
          show ?thesis
          proof (cases "vdate \<noteq> [] \<and> vdate > today sub")
            case dt: True
            have "submit_handler st sub = oemit [OAlert DateAfterToday] ?st1"
              unfolding submit_handler_def Let_def el
              by (simp only: ns ph vd dt option.case if_False if_True simp_thms)
            then show ?thesis by (simp add: oemit_def)
          next
            case dt: False
            have fv: "\<not> form_valid sub"
              using False ns ph dt vd unfolding reaches_act_check_def by simp
            have "submit_handler st sub = oemit [ReportValidity] ?st1"
              unfolding submit_handler_def Let_def el
              by (simp only: ns ph vd dt fv option.case if_False if_True simp_thms)
            then show ?thesis by (simp add: oemit_def)
          qed
        qed
      qed
    qed
    then show ?thesis by (auto simp: is_post_def)
  qed
  show ?thesis using no_post alert post payload_act_number[of st sub n] by simp
qed

text \<open>
  The theorem on the sample page: the submission passes the first steps; with 0015 in the
  field the payload of the POST request carries 15, and with 000 in the field the handler
  ends with the alert and sends nothing.
\<close>

theorem submit_act_number_gate_witness:
  "reaches_act_check sample_order_page sample_submission
   \<and> normalized_act (act_value sample_order_page) = Some 15
   \<and> (1::nat) \<le> 15 \<and> 15 \<le> INT_MAX
   \<and> order_effects (submit_handler sample_order_page sample_submission) =
       [PostOrder
          [(''company_id'', ''7''), (''order_id'', ''40''), (''redirect_to_metrolog_info'', ''0'')]
          (build_payload sample_order_page sample_submission 15)]
   \<and> obj_get (entry_data (build_payload sample_order_page sample_submission 15)) ''act_number'' =
       Some (JStr ''15'')
   \<and> reaches_act_check (sample_order_page\<lparr>act_value := ''000''\<rparr>) sample_submission
   \<and> act_rejected (act_value (sample_order_page\<lparr>act_value := ''000''\<rparr>))
   \<and> order_effects (submit_handler (sample_order_page\<lparr>act_value := ''000''\<rparr>) sample_submission) =
       [OAlert ActNotPositive]
   \<and> filter is_post
        (order_effects (submit_handler (sample_order_page\<lparr>act_value := ''000''\<rparr>) sample_submission)) =
       []"
proof -
  let ?z = "sample_order_page\<lparr>act_value := ''000''\<rparr>"
  have r: "reaches_act_check sample_order_page sample_submission"
    by (simp add: reaches_act_check_def sample_order_page_def sample_submission_def)
  have a: "normalized_act (act_value sample_order_page) = Some 15"
    by (simp add: normalized_act_def sample_order_page_def sample_digits)
  have i: "(1::nat) \<le> 15" "15 \<le> INT_MAX" by (simp_all add: INT_MAX_def)
  have s: "show_nat 15 = ''15''" "js_String (companyId sample_order_page) = ''7''"
    "js_String (orderId sample_submission) = ''40''" "submitter_id sample_submission = None"
    "order_effects sample_order_page = []"
    by (simp_all add: sample_numerals sample_order_page_def sample_submission_def)
  have post: "order_effects (submit_handler sample_order_page sample_submission) =
       [PostOrder
          [(''company_id'', ''7''), (''order_id'', ''40''), (''redirect_to_metrolog_info'', ''0'')]
          (build_payload sample_order_page sample_submission 15)]
      \<and> obj_get (entry_data (build_payload sample_order_page sample_submission 15)) ''act_number'' =
       Some (JStr ''15'')"
    using submit_act_number_gate[of sample_order_page sample_submission 15] r a i
    by (simp add: s)
  have rz: "reaches_act_check ?z sample_submission"
    by (simp add: reaches_act_check_def sample_order_page_def sample_submission_def)
  have nz: "normalized_act ''000'' = None"
    by (simp add: normalized_act_def digits_only_def strip_zeros_def is_digit_def)
  have az: "act_rejected (act_value ?z)"
    by (simp add: act_rejected_def nz)
  have ez: "order_effects ?z = []" by (simp add: sample_order_page_def)
  have alert: "order_effects (submit_handler ?z sample_submission) = [OAlert ActNotPositive]
      \<and> filter is_post (order_effects (submit_handler ?z sample_submission)) = []"
    using submit_act_number_gate[of ?z sample_submission 15] rz az
    by (simp add: nz ez is_post_def)
  show ?thesis using r a i post rz az alert by (simp add: is_post_def)
qed

text \<open>
  The claim as it was stated fails for a submission that arrives while another one is
  under way: with an empty act-number field the handler returns at once, and no alert is
  shown.
\<close>

theorem busy_submission_shows_no_alert:
  "act_rejected (act_value (sample_order_page\<lparr>act_value := [], isSubmitting := True\<rparr>))
   \<and> order_effects
        (submit_handler (sample_order_page\<lparr>act_value := [], isSubmitting := True\<rparr>)
           sample_submission) = []"
  by (simp add: act_rejected_def normalized_act_def digits_only_def strip_zeros_def
      submit_handler_def sample_order_page_def)

text \<open>
  The steps that come before the act number end the handler on their own: an incomplete
  phone with an alert about the phone, a page without the verification-date field with
  the exception (no alert is shown and nothing is sent), an invalid form with the
  browser's validation report.
\<close>

lemma incomplete_phone_ends_submission:
  "\<not> isSubmitting st \<Longrightarrow> length (phone_unmasked sub) > 2 \<Longrightarrow> \<not> phone_complete sub \<Longrightarrow>
   order_effects (submit_handler st sub) = order_effects st @ [OAlert PhoneIncomplete]"
  by (simp add: submit_handler_def Let_def oemit_def)

lemma missing_date_field_ends_submission:
  "\<not> isSubmitting st \<Longrightarrow> length (phone_unmasked sub) \<le> 2 \<or> phone_complete sub \<Longrightarrow>
   elements st ''verification_date'' = None \<Longrightarrow>
   order_effects (submit_handler st sub) = order_effects st @ [UncaughtTypeError]"
  by (simp add: submit_handler_def Let_def oemit_def)

lemma invalid_form_ends_submission:
  "\<not> isSubmitting st \<Longrightarrow> length (phone_unmasked sub) \<le> 2 \<Longrightarrow>
   elements st ''verification_date'' = Some [] \<Longrightarrow> \<not> form_valid sub \<Longrightarrow>
   order_effects (submit_handler st sub) = order_effects st @ [ReportValidity]"
  by (simp add: submit_handler_def Let_def oemit_def)

end
